theory Spec2Isabelle
  imports
    Main
    "HOL-Library.Word"
    "HOL-Library.Signed_Division"
    "HOL-Library.Sublist"
begin

unbundle bit_operations_syntax

section \<open>Sharding values and text formatting\<close>

text \<open>
  The strategies receive the sharding key as a Go \<^verbatim>\<open>interface{}\<close>.  The datatype below
  lists the dynamic types that the type switches of the source distinguish.  Go's \<^verbatim>\<open>int\<close>
  and \<^verbatim>\<open>uint\<close> are taken at their 64-bit width.  A time instant is a count of
  nanoseconds since the Unix epoch; all instants are read in UTC.
\<close>

datatype Time = UnixNano int

datatype val =
    VNil
  | VString string
  | VInt "64 word"
  | VInt8 "8 word"
  | VInt16 "16 word"
  | VInt32 "32 word"
  | VInt64 "64 word"
  | VUint "64 word"
  | VUint8 "8 word"
  | VUint16 "16 word"
  | VUint32 "32 word"
  | VUint64 "64 word"
  | VTime Time
  | VNamedInt string "64 word"
  | VNamedUint string "64 word"
  | VNilPtr
  | VPtr val
  | VPtrIface val
  | VOther string

text \<open>
  The constructors follow what the type switches and the reflection of the code can tell
  apart.  \<open>VInt\<close> to \<open>VUint64\<close>, \<open>VString\<close> and \<open>VTime\<close> are values whose dynamic type is
  exactly the built-in type \<^verbatim>\<open>int\<close>, ..., \<^verbatim>\<open>uint64\<close>, \<^verbatim>\<open>string\<close> or \<^verbatim>\<open>time.Time\<close>.
  \<open>VNamedInt T v\<close> is a value of a defined type \<open>T\<close> (such as \<^verbatim>\<open>type ID int64\<close>) whose kind
  is a signed integer, \<open>v\<close> being what \<^verbatim>\<open>reflect.Value.Int\<close> returns for it;
  \<open>VNamedUint T v\<close> is a value of a defined type of unsigned integer kind, or a
  \<^verbatim>\<open>uintptr\<close>, \<open>v\<close> being what \<^verbatim>\<open>reflect.Value.Uint\<close> returns.  No type switch of the code
  has a case for these two, and reflection sees their kind.

  \<open>VNil\<close> is the untyped nil interface and \<open>VNilPtr\<close> a nil pointer of any pointer type.
  \<open>VPtr v\<close> is a non-nil pointer to a variable whose type is the dynamic type of \<open>v\<close> and
  which holds \<open>v\<close> (so \<open>VPtr (VTime t)\<close> is a \<^verbatim>\<open>*time.Time\<close>); \<open>VPtrIface v\<close> is a non-nil
  pointer to a variable of an interface type which holds \<open>v\<close>: there \<^verbatim>\<open>Elem()\<close> is of kind
  \<^verbatim>\<open>Interface\<close>, whatever \<open>v\<close> is, and \<^verbatim>\<open>Interface()\<close> returns \<open>v\<close>.

  \<open>VOther d\<close> is every other value, named by a description \<open>d\<close>: a value that is not a
  pointer, whose kind is no signed or unsigned integer, and whose type is neither
  \<^verbatim>\<open>string\<close> nor \<^verbatim>\<open>time.Time\<close> (a float, bool, struct, slice or map, a value of a defined
  string type, ...).
\<close>

datatype panic = ZeroValueInterface | DivideByZero | SliceBounds

text \<open>Decimal rendering, as \<^verbatim>\<open>%d\<close> of package fmt prints an integer.\<close>

definition digit_char :: "nat \<Rightarrow> char" where
  "digit_char d = ''0123456789'' ! d"

function show_nat :: "nat \<Rightarrow> string" where
  "show_nat n = (if n < 10 then [digit_char n] else show_nat (n div 10) @ [digit_char (n mod 10)])"
  by pat_completeness auto
termination
  by (relation "measure id") auto

declare show_nat.simps [simp del]

definition show_int :: "int \<Rightarrow> string" where
  "show_int i = (if i < 0 then CHR ''-'' # show_nat (nat (- i)) else show_nat (nat i))"

text \<open>\<^verbatim>\<open>fmt.Sprintf("%s_%d", baseTableName, tableIndex)\<close>\<close>

definition table_name :: "string \<Rightarrow> int \<Rightarrow> string" where
  "table_name base idx = base @ ''_'' @ show_int idx"

section \<open>Hash strategy\<close>

record HashShardingStrategy =
  hs_baseTableName :: string
  hs_shardingKey :: string
  hs_tableCount :: "64 word"

definition NewHashShardingStrategy :: "string \<Rightarrow> string \<Rightarrow> 64 word \<Rightarrow> HashShardingStrategy" where
  "NewHashShardingStrategy baseTableName shardingKey tableCount =
     \<lparr> hs_baseTableName = baseTableName,
       hs_shardingKey = shardingKey,
       hs_tableCount = (if sint tableCount \<le> 0 then 1 else tableCount) \<rparr>"

text \<open>FNV-1a, 64 bit (\<^verbatim>\<open>hash/fnv.New64a\<close>): xor each byte in, then multiply by the prime.\<close>

definition fnv_step :: "64 word \<Rightarrow> char \<Rightarrow> 64 word" where
  "fnv_step h c = (h XOR of_char c) * 1099511628211"

definition fnv64a :: "string \<Rightarrow> 64 word" where
  "fnv64a s = foldl fnv_step 14695981039346656037 s"

text \<open>
  \<open>hashValue\<close>.  The parameter \<open>fmtv\<close> stands for \<^verbatim>\<open>fmt.Sprintf("%v", x)\<close> of the Go
  library, used by the default branch.  In that branch \<^verbatim>\<open>reflect.ValueOf(value)\<close> is the
  zero Value for the nil interface, and \<^verbatim>\<open>rv.Elem()\<close> is the zero Value for a nil pointer;
  \<^verbatim>\<open>rv.Interface()\<close> panics on the zero Value.
\<close>

fun hashValue :: "(val \<Rightarrow> string) \<Rightarrow> val \<Rightarrow> panic + 64 word" where
  "hashValue fmtv (VString v) = Inr (fnv64a v)"
| "hashValue fmtv (VInt v) = Inr (fnv64a (show_int (sint v)))"
| "hashValue fmtv (VInt8 v) = Inr (fnv64a (show_int (sint v)))"
| "hashValue fmtv (VInt16 v) = Inr (fnv64a (show_int (sint v)))"
| "hashValue fmtv (VInt32 v) = Inr (fnv64a (show_int (sint v)))"
| "hashValue fmtv (VInt64 v) = Inr (fnv64a (show_int (sint v)))"
| "hashValue fmtv (VUint v) = Inr (fnv64a (show_int (uint v)))"
| "hashValue fmtv (VUint8 v) = Inr (fnv64a (show_int (uint v)))"
| "hashValue fmtv (VUint16 v) = Inr (fnv64a (show_int (uint v)))"
| "hashValue fmtv (VUint32 v) = Inr (fnv64a (show_int (uint v)))"
| "hashValue fmtv (VUint64 v) = Inr (fnv64a (show_int (uint v)))"
| "hashValue fmtv VNil = Inl ZeroValueInterface"
| "hashValue fmtv VNilPtr = Inl ZeroValueInterface"
| "hashValue fmtv (VPtr p) = Inr (fnv64a (fmtv p))"
| "hashValue fmtv (VPtrIface p) = Inr (fnv64a (fmtv p))"
| "hashValue fmtv (VNamedInt T v) = Inr (fnv64a (fmtv (VNamedInt T v)))"
| "hashValue fmtv (VNamedUint T v) = Inr (fnv64a (fmtv (VNamedUint T v)))"
| "hashValue fmtv (VTime t) = Inr (fnv64a (fmtv (VTime t)))"
| "hashValue fmtv (VOther d) = Inr (fnv64a (fmtv (VOther d)))"

text \<open>
  \<open>GetTableName\<close>: \<^verbatim>\<open>hashValue % uint64(s.tableCount)\<close> is an unsigned remainder and
  panics when the divisor is zero.
\<close>

definition HashGetTableName ::
  "(val \<Rightarrow> string) \<Rightarrow> HashShardingStrategy \<Rightarrow> string \<Rightarrow> val \<Rightarrow> panic + string" where
  "HashGetTableName fmtv s baseTableName shardingValue =
     (case hashValue fmtv shardingValue of
        Inl p \<Rightarrow> Inl p
      | Inr h \<Rightarrow>
          if hs_tableCount s = 0 then Inl DivideByZero
          else Inr (table_name baseTableName (uint (h mod hs_tableCount s))))"

definition HashGetAllTableNames :: "HashShardingStrategy \<Rightarrow> string \<Rightarrow> string list" where
  "HashGetAllTableNames s baseTableName =
     map (\<lambda>i. table_name baseTableName (int i)) [0 ..< nat (sint (hs_tableCount s))]"

section \<open>Range and Modulo strategies\<close>

record RangeShardingStrategy =
  rs_baseTableName :: string
  rs_shardingKey :: string
  rs_rangeSize :: "64 word"
  rs_tableCount :: "64 word"

definition NewRangeShardingStrategy ::
  "string \<Rightarrow> string \<Rightarrow> 64 word \<Rightarrow> 64 word \<Rightarrow> RangeShardingStrategy" where
  "NewRangeShardingStrategy baseTableName shardingKey rangeSize tableCount =
     \<lparr> rs_baseTableName = baseTableName,
       rs_shardingKey = shardingKey,
       rs_rangeSize = (if sint rangeSize \<le> 0 then 10000 else rangeSize),
       rs_tableCount = (if sint tableCount \<le> 0 then 1 else tableCount) \<rparr>"

text \<open>
  The conversion \<^verbatim>\<open>int64(v)\<close> of the type switch shared by both strategies: sign extension
  for the signed types, zero extension for \<^verbatim>\<open>uint32\<close>, and the same bits for \<^verbatim>\<open>uint\<close> and
  \<^verbatim>\<open>uint64\<close>.  \<open>None\<close> is the default branch.
\<close>

fun toInt64 :: "val \<Rightarrow> 64 word option" where
  "toInt64 (VInt v) = Some v"
| "toInt64 (VInt32 v) = Some (scast v)"
| "toInt64 (VInt64 v) = Some v"
| "toInt64 (VUint v) = Some v"
| "toInt64 (VUint32 v) = Some (ucast v)"
| "toInt64 (VUint64 v) = Some v"
| "toInt64 _ = None"

text \<open>Go's \<^verbatim>\<open>/\<close> and \<^verbatim>\<open>%\<close> on signed integers truncate towards zero and wrap at 64 bits.\<close>

definition go_div :: "64 word \<Rightarrow> 64 word \<Rightarrow> 64 word" where
  "go_div a b = word_of_int (sint a sdiv sint b)"

definition go_rem :: "64 word \<Rightarrow> 64 word \<Rightarrow> 64 word" where
  "go_rem a b = word_of_int (sint a smod sint b)"

definition RangeGetTableName ::
  "(val \<Rightarrow> string) \<Rightarrow> RangeShardingStrategy \<Rightarrow> string \<Rightarrow> val \<Rightarrow> panic + string" where
  "RangeGetTableName fmtv s baseTableName shardingValue =
     (case toInt64 shardingValue of
        None \<Rightarrow>
          HashGetTableName fmtv
            (NewHashShardingStrategy baseTableName (rs_shardingKey s) (rs_tableCount s))
            baseTableName shardingValue
      | Some intValue \<Rightarrow>
          if rs_rangeSize s = 0 then Inl DivideByZero
          else
            let tableIndex = go_div intValue (rs_rangeSize s);
                tableIndex = (if sint (rs_tableCount s) \<le> sint tableIndex
                              then rs_tableCount s - 1 else tableIndex);
                tableIndex = (if sint tableIndex < 0 then 0 else tableIndex)
            in Inr (table_name baseTableName (sint tableIndex)))"

record ModuloShardingStrategy =
  ms_baseTableName :: string
  ms_shardingKey :: string
  ms_modulo :: "64 word"

definition NewModuloShardingStrategy :: "string \<Rightarrow> string \<Rightarrow> 64 word \<Rightarrow> ModuloShardingStrategy" where
  "NewModuloShardingStrategy baseTableName shardingKey modulus =
     \<lparr> ms_baseTableName = baseTableName,
       ms_shardingKey = shardingKey,
       ms_modulo = (if sint modulus \<le> 0 then 1 else modulus) \<rparr>"

definition ModuloGetTableName ::
  "(val \<Rightarrow> string) \<Rightarrow> ModuloShardingStrategy \<Rightarrow> string \<Rightarrow> val \<Rightarrow> panic + string" where
  "ModuloGetTableName fmtv s baseTableName shardingValue =
     (case toInt64 shardingValue of
        None \<Rightarrow>
          HashGetTableName fmtv
            (NewHashShardingStrategy baseTableName (ms_shardingKey s) (ms_modulo s))
            baseTableName shardingValue
      | Some intValue \<Rightarrow>
          if ms_modulo s = 0 then Inl DivideByZero
          else
            let tableIndex = go_rem intValue (ms_modulo s);
                tableIndex = (if sint tableIndex < 0
                              then go_rem (- tableIndex) (ms_modulo s) else tableIndex)
            in Inr (table_name baseTableName (sint tableIndex)))"


section \<open>Time instants and the calendar of package time\<close>

text \<open>
  The Time strategy relies on Go's package time.  An instant \<open>UnixNano n\<close> is \<open>n\<close>
  nanoseconds after 1970-01-01 00:00:00 UTC; the calendar is the proleptic Gregorian one
  and every instant is presented in UTC.  Instants are unbounded integers:
  the limits of Go's 64-bit second counter, hundreds of billions of years away, are not
  modelled, and neither are monotonic clock readings.
\<close>

definition time_Unix :: "int \<Rightarrow> int \<Rightarrow> Time" where
  "time_Unix sec nsec = UnixNano (sec * 1000000000 + nsec)"

fun unixNano :: "Time \<Rightarrow> int" where
  "unixNano (UnixNano n) = n"

definition time_Before :: "Time \<Rightarrow> Time \<Rightarrow> bool" where
  "time_Before t u = (unixNano t < unixNano u)"

definition time_After :: "Time \<Rightarrow> Time \<Rightarrow> bool" where
  "time_After t u = (unixNano u < unixNano t)"

definition time_Equal :: "Time \<Rightarrow> Time \<Rightarrow> bool" where
  "time_Equal t u = (unixNano t = unixNano u)"

text \<open>\<^verbatim>\<open>t.Add(d)\<close> with the duration in nanoseconds.\<close>

definition time_Add :: "Time \<Rightarrow> int \<Rightarrow> Time" where
  "time_Add t d = UnixNano (unixNano t + d)"

abbreviation (input) Minute :: int where "Minute \<equiv> 60000000000"
abbreviation (input) Hour :: int where "Hour \<equiv> 3600000000000"

definition isLeap :: "int \<Rightarrow> bool" where
  "isLeap year = (year mod 4 = 0 \<and> (year mod 100 \<noteq> 0 \<or> year mod 400 = 0))"

text \<open>Days from 1970-01-01 to the first of January of \<open>year\<close>.\<close>

definition daysSinceEpoch :: "int \<Rightarrow> int" where
  "daysSinceEpoch year =
     (let y = year - 1 in 365 * y + y div 4 - y div 100 + y div 400 - 719162)"

text \<open>Days of a non-leap year before each month (index 0 is January), as in package time.\<close>

definition daysBefore :: "int list" where
  "daysBefore = [0, 31, 59, 90, 120, 151, 181, 212, 243, 273, 304, 334, 365]"

text \<open>Days of the year before month \<open>m\<close> (\<open>1 \<le> m \<le> 12\<close>), with the leap day.\<close>

definition daysBeforeMonth :: "int \<Rightarrow> int \<Rightarrow> int" where
  "daysBeforeMonth year m =
     daysBefore ! nat (m - 1) + (if isLeap year \<and> 3 \<le> m then 1 else 0)"

text \<open>
  \<^verbatim>\<open>time.Date\<close> in UTC.  The month is normalised into the year; days, hours, minutes,
  seconds and nanoseconds outside their usual ranges carry over, which for an instant
  counted in nanoseconds is plain addition.
\<close>

definition time_Date :: "int \<Rightarrow> int \<Rightarrow> int \<Rightarrow> int \<Rightarrow> int \<Rightarrow> int \<Rightarrow> int \<Rightarrow> Time" where
  "time_Date year month day hour minute sec nsec =
     (let y = year + (month - 1) div 12;
          m = (month - 1) mod 12 + 1;
          d = daysSinceEpoch y + daysBeforeMonth y m + (day - 1)
      in UnixNano ((d * 86400 + hour * 3600 + minute * 60 + sec) * 1000000000 + nsec))"

text \<open>The instant of a date whose month is already within the year.\<close>

definition civilNanos :: "int \<Rightarrow> int \<Rightarrow> int \<Rightarrow> int \<Rightarrow> int \<Rightarrow> int \<Rightarrow> int \<Rightarrow> int" where
  "civilNanos y m d h mi s ns =
     ((daysSinceEpoch y + daysBeforeMonth y m + (d - 1)) * 86400 + h * 3600 + mi * 60 + s)
       * 1000000000 + ns"

text \<open>The fields of an instant.  The year is found from the day number by cutting off
  cycles of 400, 100, 4 and 1 years, the last cycle of each kind being one day longer.\<close>

definition unixSec :: "Time \<Rightarrow> int" where
  "unixSec t = unixNano t div 1000000000"

definition nanosecond :: "Time \<Rightarrow> int" where
  "nanosecond t = unixNano t mod 1000000000"

definition unixDay :: "Time \<Rightarrow> int" where
  "unixDay t = unixSec t div 86400"

definition yearOfDay :: "int \<Rightarrow> int" where
  "yearOfDay n =
     (let d = n + 719162;
          n400 = d div 146097;
          d = d mod 146097;
          n100 = min 3 (d div 36524);
          d = d - 36524 * n100;
          n4 = d div 1461;
          d = d mod 1461;
          n1 = min 3 (d div 365)
      in 400 * n400 + 100 * n100 + 4 * n4 + n1 + 1)"

definition time_Year :: "Time \<Rightarrow> int" where
  "time_Year t = yearOfDay (unixDay t)"

definition time_YearDay :: "Time \<Rightarrow> int" where
  "time_YearDay t = unixDay t - daysSinceEpoch (time_Year t)"

definition time_Month :: "Time \<Rightarrow> int" where
  "time_Month t =
     (case find (\<lambda>m. time_YearDay t < daysBeforeMonth (time_Year t) (m + 1))
             [1, 2, 3, 4, 5, 6, 7, 8, 9, 10, 11] of
        Some m \<Rightarrow> m
      | None \<Rightarrow> 12)"

definition time_Day :: "Time \<Rightarrow> int" where
  "time_Day t = time_YearDay t - daysBeforeMonth (time_Year t) (time_Month t) + 1"

definition time_Hour :: "Time \<Rightarrow> int" where
  "time_Hour t = (unixSec t mod 86400) div 3600"

definition time_Minute :: "Time \<Rightarrow> int" where
  "time_Minute t = (unixSec t mod 3600) div 60"

definition time_Second :: "Time \<Rightarrow> int" where
  "time_Second t = unixSec t mod 60"

text \<open>\<^verbatim>\<open>t.AddDate(years, months, days)\<close>: the date and clock of \<open>t\<close>, shifted, go
  through \<open>time_Date\<close> again.\<close>

definition time_AddDate :: "Time \<Rightarrow> int \<Rightarrow> int \<Rightarrow> int \<Rightarrow> Time" where
  "time_AddDate t years months days =
     time_Date (time_Year t + years) (time_Month t + months) (time_Day t + days)
       (time_Hour t) (time_Minute t) (time_Second t) (nanosecond t)"

text \<open>
  Layouts.  A Go layout string is kept as its sequence of chunks:
  \<^verbatim>\<open>2006\<close> is \<open>StdLongYear\<close>, \<^verbatim>\<open>01\<close> \<open>StdZeroMonth\<close>, \<^verbatim>\<open>02\<close> \<open>StdZeroDay\<close>,
  \<^verbatim>\<open>15\<close> \<open>StdHour\<close>, \<^verbatim>\<open>04\<close> \<open>StdZeroMinute\<close>, \<^verbatim>\<open>05\<close> \<open>StdZeroSecond\<close>; any other
  character of the layouts used here stands for itself.
\<close>

datatype chunk =
  StdLongYear | StdZeroMonth | StdZeroDay | StdHour | StdZeroMinute | StdZeroSecond | Lit char

definition zero_pad :: "nat \<Rightarrow> nat \<Rightarrow> string" where
  "zero_pad width n = replicate (width - length (show_nat n)) CHR ''0'' @ show_nat n"

definition appendInt :: "int \<Rightarrow> nat \<Rightarrow> string" where
  "appendInt x width =
     (if x < 0 then CHR ''-'' # zero_pad width (nat (- x)) else zero_pad width (nat x))"

fun formatChunk :: "Time \<Rightarrow> chunk \<Rightarrow> string" where
  "formatChunk t StdLongYear = appendInt (time_Year t) 4"
| "formatChunk t StdZeroMonth = appendInt (time_Month t) 2"
| "formatChunk t StdZeroDay = appendInt (time_Day t) 2"
| "formatChunk t StdHour = appendInt (time_Hour t) 2"
| "formatChunk t StdZeroMinute = appendInt (time_Minute t) 2"
| "formatChunk t StdZeroSecond = appendInt (time_Second t) 2"
| "formatChunk t (Lit c) = [c]"

definition time_Format :: "Time \<Rightarrow> chunk list \<Rightarrow> string" where
  "time_Format t layout = concat (map (formatChunk t) layout)"

definition FormatTimeTableName :: "string \<Rightarrow> Time \<Rightarrow> chunk list \<Rightarrow> string" where
  "FormatTimeTableName baseTableName t format = baseTableName @ ''_'' @ time_Format t format"


section \<open>Time strategy\<close>

text \<open>\<^verbatim>\<open>TimeShardingUnit\<close> and \<^verbatim>\<open>TimeFieldType\<close> are Go integer types with named
  constants; a value of the type need not be one of the constants.\<close>

type_synonym TimeShardingUnit = int

abbreviation (input) TimeShardingByYear :: TimeShardingUnit where "TimeShardingByYear \<equiv> 0"
abbreviation (input) TimeShardingByMonth :: TimeShardingUnit where "TimeShardingByMonth \<equiv> 1"
abbreviation (input) TimeShardingByDay :: TimeShardingUnit where "TimeShardingByDay \<equiv> 2"
abbreviation (input) TimeShardingByHour :: TimeShardingUnit where "TimeShardingByHour \<equiv> 3"
abbreviation (input) TimeShardingByMinute :: TimeShardingUnit where "TimeShardingByMinute \<equiv> 4"

type_synonym TimeFieldType = int

abbreviation (input) TimeFieldTypeAuto :: TimeFieldType where "TimeFieldTypeAuto \<equiv> 0"
abbreviation (input) TimeFieldTypeTime :: TimeFieldType where "TimeFieldTypeTime \<equiv> 1"
abbreviation (input) TimeFieldTypeTimestamp :: TimeFieldType where "TimeFieldTypeTimestamp \<equiv> 2"
abbreviation (input) TimeFieldTypeTimestampMs :: TimeFieldType where "TimeFieldTypeTimestampMs \<equiv> 3"
abbreviation (input) TimeFieldTypeDate :: TimeFieldType where "TimeFieldTypeDate \<equiv> 4"
abbreviation (input) TimeFieldTypeDateTime :: TimeFieldType where "TimeFieldTypeDateTime \<equiv> 5"

record TimeShardingStrategy =
  ts_baseTableName :: string
  ts_timeField :: string
  ts_unit :: TimeShardingUnit
  ts_timeFormat :: "chunk list"
  ts_fieldType :: TimeFieldType

definition getTimeFormat :: "TimeShardingUnit \<Rightarrow> chunk list" where
  "getTimeFormat unit =
     (if unit = TimeShardingByYear then [StdLongYear]
      else if unit = TimeShardingByMonth then [StdLongYear, StdZeroMonth]
      else if unit = TimeShardingByDay then [StdLongYear, StdZeroMonth, StdZeroDay]
      else if unit = TimeShardingByHour then [StdLongYear, StdZeroMonth, StdZeroDay, StdHour]
      else if unit = TimeShardingByMinute
        then [StdLongYear, StdZeroMonth, StdZeroDay, StdHour, StdZeroMinute]
      else [StdLongYear, StdZeroMonth])"

definition NewTimeShardingStrategyWithType ::
  "string \<Rightarrow> string \<Rightarrow> TimeShardingUnit \<Rightarrow> TimeFieldType \<Rightarrow> TimeShardingStrategy" where
  "NewTimeShardingStrategyWithType baseTableName timeField unit fieldType =
     \<lparr> ts_baseTableName = baseTableName,
       ts_timeField = timeField,
       ts_unit = unit,
       ts_timeFormat = getTimeFormat unit,
       ts_fieldType = fieldType \<rparr>"

definition NewTimeShardingStrategy ::
  "string \<Rightarrow> string \<Rightarrow> TimeShardingUnit \<Rightarrow> TimeShardingStrategy" where
  "NewTimeShardingStrategy baseTableName timeField unit =
     NewTimeShardingStrategyWithType baseTableName timeField unit TimeFieldTypeAuto"


subsection \<open>Enumerating the tables of a range\<close>

text \<open>The switch at the end of the loop body.  It has no default case: for a unit that
  is none of the five constants the current time stays as it is.\<close>

definition nextTime :: "TimeShardingUnit \<Rightarrow> Time \<Rightarrow> Time" where
  "nextTime unit currentTime =
     (if unit = TimeShardingByYear then time_AddDate currentTime 1 0 0
      else if unit = TimeShardingByMonth then time_AddDate currentTime 0 1 0
      else if unit = TimeShardingByDay then time_AddDate currentTime 0 0 1
      else if unit = TimeShardingByHour then time_Add currentTime Hour
      else if unit = TimeShardingByMinute then time_Add currentTime Minute
      else currentTime)"

text \<open>The stepping loop.  It may run forever, so its result is an option: \<open>None\<close> is
  the loop that never leaves.\<close>

partial_function (option) collectTableNames ::
  "TimeShardingStrategy \<Rightarrow> string \<Rightarrow> Time \<Rightarrow> Time \<Rightarrow> string list \<Rightarrow> string list option" where
  "collectTableNames s baseTableName currentTime endTime tableNames =
     (if time_Before currentTime endTime \<or> time_Equal currentTime endTime
      then collectTableNames s baseTableName (nextTime (ts_unit s) currentTime) endTime
             (tableNames @ [FormatTimeTableName baseTableName currentTime (ts_timeFormat s)])
      else Some tableNames)"

text \<open>The de-duplication loop over the collected names: \<open>uniqueNames\<close> is the map of
  names seen, \<open>result\<close> the names kept.\<close>

fun uniqueTableNames :: "(string \<Rightarrow> bool) \<Rightarrow> string list \<Rightarrow> string list \<Rightarrow> string list" where
  "uniqueTableNames uniqueNames result [] = result"
| "uniqueTableNames uniqueNames result (name # names) =
     (if \<not> uniqueNames name
      then uniqueTableNames (uniqueNames(name := True)) (result @ [name]) names
      else uniqueTableNames uniqueNames result names)"

definition GetAllTableNamesInRange ::
  "TimeShardingStrategy \<Rightarrow> string \<Rightarrow> Time \<Rightarrow> Time \<Rightarrow> string list option" where
  "GetAllTableNamesInRange s baseTableName startTime endTime =
     map_option (uniqueTableNames (\<lambda>_. False) [])
       (collectTableNames s baseTableName startTime endTime [])"

subsection \<open>Converting a sharding value to an instant\<close>

text \<open>
  \<^verbatim>\<open>strconv.ParseInt(str, 10, 64)\<close>: an optional sign, then one or more decimal digits,
  and the value must fit 64 bits.
\<close>

definition is_digit :: "char \<Rightarrow> bool" where
  "is_digit c = (48 \<le> (of_char c :: nat) \<and> (of_char c :: nat) \<le> 57)"

definition digits_value :: "string \<Rightarrow> nat" where
  "digits_value ds = foldl (\<lambda>acc c. 10 * acc + (of_char c - 48)) 0 ds"

definition ParseInt :: "string \<Rightarrow> 64 word option" where
  "ParseInt str =
     (let (neg, ds) = (case str of
                         c # rest \<Rightarrow> if c = CHR ''-'' then (True, rest)
                                     else if c = CHR ''+'' then (False, rest)
                                     else (False, str)
                       | [] \<Rightarrow> (False, []))
      in if ds = [] \<or> \<not> list_all is_digit ds then None
         else let n = int (digits_value ds)
              in if neg then (if n \<le> 9223372036854775808 then Some (word_of_int (- n)) else None)
                 else (if n \<le> 9223372036854775807 then Some (word_of_int n) else None))"

text \<open>The seconds-or-milliseconds heuristic applied to a signed 64-bit timestamp, and
  to an unsigned one.\<close>

definition timeFromInt64 :: "64 word \<Rightarrow> Time" where
  "timeFromInt64 v =
     (if 10000000000 < sint v
      then time_Unix (sint v div 1000) ((sint v mod 1000) * 1000000)
      else time_Unix (sint v) 0)"

definition timeFromUint64 :: "64 word \<Rightarrow> Time" where
  "timeFromUint64 v =
     (if 10000000000 < uint v
      then time_Unix (uint v div 1000) ((uint v mod 1000) * 1000000)
      else time_Unix (uint v) 0)"

text \<open>
  \<open>parseStringTime\<close>.  The parameter \<open>tparse\<close> stands for \<^verbatim>\<open>time.Parse(layout, str)\<close> of
  the Go library (\<open>None\<close> is a parse error), \<open>now\<close> for the reading of \<^verbatim>\<open>time.Now()\<close>.
\<close>

definition timeFormats :: "string list" where
  "timeFormats =
     [''2006-01-02 15:04:05'',
      ''2006-01-02T15:04:05Z07:00'',
      ''2006-01-02T15:04:05'',
      ''2006-01-02 15:04:05.000'',
      ''2006-01-02'',
      ''2006-01-02T15:04:05Z07:00'',
      ''2006-01-02T15:04:05.999999999Z07:00'']"

fun tryFormats :: "(string \<Rightarrow> string \<Rightarrow> Time option) \<Rightarrow> string list \<Rightarrow> string \<Rightarrow> Time option" where
  "tryFormats tparse [] str = None"
| "tryFormats tparse (format # formats) str =
     (case tparse format str of
        Some t \<Rightarrow> Some t
      | None \<Rightarrow> tryFormats tparse formats str)"

definition parseStringTime :: "Time \<Rightarrow> (string \<Rightarrow> string \<Rightarrow> Time option) \<Rightarrow> string \<Rightarrow> Time" where
  "parseStringTime now tparse str =
     (if str = [] then now
      else case tryFormats tparse timeFormats str of
             Some t \<Rightarrow> t
           | None \<Rightarrow>
               (case ParseInt str of
                  Some timestamp \<Rightarrow> timeFromInt64 timestamp
                | None \<Rightarrow> now))"

text \<open>
  The default branch of the type switch of \<open>convertToTime\<close>, after the pointer test:
  \<open>reflectTime\<close> takes the value that \<^verbatim>\<open>rv\<close> then stands for.  \<^verbatim>\<open>rv.CanInt()\<close> holds for
  every value of signed integer kind and \<^verbatim>\<open>rv.CanUint()\<close> for every value of unsigned
  integer kind, of a built-in or of a defined type, and both go through the heuristic;
  the assertion \<^verbatim>\<open>rv.Interface().(string)\<close> holds for a value of type \<^verbatim>\<open>string\<close> only.
\<close>

fun reflectTime :: "Time \<Rightarrow> (string \<Rightarrow> string \<Rightarrow> Time option) \<Rightarrow> val \<Rightarrow> Time" where
  "reflectTime now tparse (VInt v) = timeFromInt64 v"
| "reflectTime now tparse (VInt8 v) = timeFromInt64 (scast v)"
| "reflectTime now tparse (VInt16 v) = timeFromInt64 (scast v)"
| "reflectTime now tparse (VInt32 v) = timeFromInt64 (scast v)"
| "reflectTime now tparse (VInt64 v) = timeFromInt64 v"
| "reflectTime now tparse (VNamedInt T v) = timeFromInt64 v"
| "reflectTime now tparse (VUint v) = timeFromUint64 v"
| "reflectTime now tparse (VUint8 v) = timeFromUint64 (ucast v)"
| "reflectTime now tparse (VUint16 v) = timeFromUint64 (ucast v)"
| "reflectTime now tparse (VUint32 v) = timeFromUint64 (ucast v)"
| "reflectTime now tparse (VUint64 v) = timeFromUint64 v"
| "reflectTime now tparse (VNamedUint T v) = timeFromUint64 v"
| "reflectTime now tparse (VString v) = parseStringTime now tparse v"
| "reflectTime now tparse _ = now"

text \<open>
  The type switch of \<open>convertToTime\<close> in auto-detect mode.  Its cases name the types
  \<^verbatim>\<open>time.Time\<close>, \<^verbatim>\<open>int\<close>, \<^verbatim>\<open>int32\<close>, \<^verbatim>\<open>int64\<close>, \<^verbatim>\<open>uint\<close>, \<^verbatim>\<open>uint32\<close>, \<^verbatim>\<open>uint64\<close>, \<^verbatim>\<open>string\<close>
  and \<^verbatim>\<open>*time.Time\<close>; every other value reaches the default branch.  There a nil pointer
  gives the current instant and a pointer is followed once.  Behind a pointer to a
  variable of interface type \<^verbatim>\<open>rv\<close> is of kind \<^verbatim>\<open>Interface\<close>, so neither integer test
  holds, and the string assertion sees the value the variable holds.
\<close>

fun autoDetectTime :: "Time \<Rightarrow> (string \<Rightarrow> string \<Rightarrow> Time option) \<Rightarrow> val \<Rightarrow> Time" where
  "autoDetectTime now tparse (VTime v) = v"
| "autoDetectTime now tparse (VInt v) = time_Unix (sint v) 0"
| "autoDetectTime now tparse (VInt32 v) = time_Unix (sint v) 0"
| "autoDetectTime now tparse (VInt64 v) = timeFromInt64 v"
| "autoDetectTime now tparse (VUint v) = time_Unix (sint v) 0"
| "autoDetectTime now tparse (VUint32 v) = time_Unix (uint v) 0"
| "autoDetectTime now tparse (VUint64 v) = timeFromUint64 v"
| "autoDetectTime now tparse (VString v) = parseStringTime now tparse v"
| "autoDetectTime now tparse (VPtr (VTime v)) = v"
| "autoDetectTime now tparse VNilPtr = now"
| "autoDetectTime now tparse VNil = now"
| "autoDetectTime now tparse (VPtr p) = reflectTime now tparse p"
| "autoDetectTime now tparse (VPtrIface (VString v)) = parseStringTime now tparse v"
| "autoDetectTime now tparse (VPtrIface p) = now"
| "autoDetectTime now tparse v = reflectTime now tparse v"

text \<open>\<open>convertToTimestamp\<close>; \<^verbatim>\<open>t.Unix()\<close> and \<^verbatim>\<open>t.UnixMilli()\<close> are 64-bit results.\<close>

definition time_UnixOf :: "bool \<Rightarrow> Time \<Rightarrow> 64 word" where
  "time_UnixOf isMillisecond t =
     (if isMillisecond then word_of_int (unixNano t div 1000000) else word_of_int (unixSec t))"

fun convertToTimestamp ::
  "Time \<Rightarrow> (string \<Rightarrow> string \<Rightarrow> Time option) \<Rightarrow> val \<Rightarrow> bool \<Rightarrow> 64 word" where
  "convertToTimestamp now tparse (VInt64 v) isMillisecond = v"
| "convertToTimestamp now tparse (VInt v) isMillisecond = v"
| "convertToTimestamp now tparse (VInt32 v) isMillisecond = scast v"
| "convertToTimestamp now tparse (VUint64 v) isMillisecond = v"
| "convertToTimestamp now tparse (VUint v) isMillisecond = v"
| "convertToTimestamp now tparse (VUint32 v) isMillisecond = ucast v"
| "convertToTimestamp now tparse (VTime v) isMillisecond = time_UnixOf isMillisecond v"
| "convertToTimestamp now tparse (VPtr (VTime v)) isMillisecond = time_UnixOf isMillisecond v"
| "convertToTimestamp now tparse (VString v) isMillisecond =
     time_UnixOf isMillisecond (parseStringTime now tparse v)"
| "convertToTimestamp now tparse _ isMillisecond = 0"

text \<open>The value \<open>convertByType\<close> hands back in an \<^verbatim>\<open>interface{}\<close>: an instant, a 64-bit
  timestamp or a string.\<close>

datatype converted = CTime Time | CInt64 "64 word" | CString string

definition dateLayout :: "chunk list" where
  "dateLayout = [StdLongYear, Lit CHR ''-'', StdZeroMonth, Lit CHR ''-'', StdZeroDay]"

definition dateTimeLayout :: "chunk list" where
  "dateTimeLayout =
     [StdLongYear, Lit CHR ''-'', StdZeroMonth, Lit CHR ''-'', StdZeroDay, Lit CHR '' '',
      StdHour, Lit CHR '':'', StdZeroMinute, Lit CHR '':'', StdZeroSecond]"

text \<open>The type assertions \<^verbatim>\<open>value.(string)\<close>, and \<^verbatim>\<open>value.(time.Time)\<close> followed by
  \<^verbatim>\<open>value.(*time.Time)\<close> with a non-nil pointer.\<close>

fun asString :: "val \<Rightarrow> string option" where
  "asString (VString str) = Some str"
| "asString _ = None"

fun asTime :: "val \<Rightarrow> Time option" where
  "asTime (VTime t) = Some t"
| "asTime (VPtr (VTime t)) = Some t"
| "asTime _ = None"

text \<open>
  \<open>convertToTime\<close> and \<open>convertByType\<close> call each other.  The call chain need not end, so
  the result is an option.  The body of \<open>convertByType\<close> at the strategy's own field type
  appears inside \<open>convertToTime\<close> (the inner \<open>if\<close> chain, which yields the \<open>converted\<close>
  value that the type assertion \<^verbatim>\<open>result.(time.Time)\<close> then inspects);
  \<open>convertByType\<close> itself follows.
\<close>

partial_function (option) convertToTime ::
  "Time \<Rightarrow> (string \<Rightarrow> string \<Rightarrow> Time option) \<Rightarrow> TimeShardingStrategy \<Rightarrow> val \<Rightarrow> Time option" where
  "convertToTime now tparse s v =
     (if v = VNil then Some now
      else if ts_fieldType s \<noteq> TimeFieldTypeAuto then
        Option.bind
          (if ts_fieldType s = TimeFieldTypeTime then
             Some (CTime (case asTime v of Some t \<Rightarrow> t | None \<Rightarrow> now))
           else if ts_fieldType s = TimeFieldTypeTimestamp then
             Some (CInt64 (convertToTimestamp now tparse v False))
           else if ts_fieldType s = TimeFieldTypeTimestampMs then
             Some (CInt64 (convertToTimestamp now tparse v True))
           else if ts_fieldType s = TimeFieldTypeDate then
             (case asString v of
                Some str \<Rightarrow> Some (CString str)
              | None \<Rightarrow> Option.bind (convertToTime now tparse s v)
                       (\<lambda>t. Some (CString (time_Format t dateLayout))))
           else if ts_fieldType s = TimeFieldTypeDateTime then
             (case asString v of
                Some str \<Rightarrow> Some (CString str)
              | None \<Rightarrow> Option.bind (convertToTime now tparse s v)
                       (\<lambda>t. Some (CString (time_Format t dateTimeLayout))))
           else Option.bind (convertToTime now tparse s v) (\<lambda>t. Some (CTime t)))
          (\<lambda>result. case result of CTime t \<Rightarrow> Some t | _ \<Rightarrow> Some now)
      else Some (autoDetectTime now tparse v))"

definition convertByType ::
  "Time \<Rightarrow> (string \<Rightarrow> string \<Rightarrow> Time option) \<Rightarrow> TimeShardingStrategy \<Rightarrow> val \<Rightarrow> TimeFieldType
     \<Rightarrow> converted option" where
  "convertByType now tparse s v fieldType =
     (if v = VNil then Some (CTime now)
      else if fieldType = TimeFieldTypeTime then
        Some (CTime (case asTime v of Some t \<Rightarrow> t | None \<Rightarrow> now))
      else if fieldType = TimeFieldTypeTimestamp then
        Some (CInt64 (convertToTimestamp now tparse v False))
      else if fieldType = TimeFieldTypeTimestampMs then
        Some (CInt64 (convertToTimestamp now tparse v True))
      else if fieldType = TimeFieldTypeDate then
        (case asString v of
           Some str \<Rightarrow> Some (CString str)
         | None \<Rightarrow> Option.bind (convertToTime now tparse s v)
                  (\<lambda>t. Some (CString (time_Format t dateLayout))))
      else if fieldType = TimeFieldTypeDateTime then
        (case asString v of
           Some str \<Rightarrow> Some (CString str)
         | None \<Rightarrow> Option.bind (convertToTime now tparse s v)
                  (\<lambda>t. Some (CString (time_Format t dateTimeLayout))))
      else Option.bind (convertToTime now tparse s v) (\<lambda>t. Some (CTime t)))"

definition TimeGetTableName ::
  "Time \<Rightarrow> (string \<Rightarrow> string \<Rightarrow> Time option) \<Rightarrow> TimeShardingStrategy \<Rightarrow> string \<Rightarrow> val
     \<Rightarrow> string option" where
  "TimeGetTableName now tparse s baseTableName shardingValue =
     map_option (\<lambda>t. FormatTimeTableName baseTableName t (ts_timeFormat s))
       (convertToTime now tparse s shardingValue)"

text \<open>The two conversions of \<open>ParseTimeRange\<close> and of
  \<open>GetAllTableNamesInRangeWithValues\<close> may each read the clock; \<open>now1\<close> and \<open>now2\<close> are
  the two readings.\<close>

definition ParseTimeRange ::
  "Time \<Rightarrow> Time \<Rightarrow> (string \<Rightarrow> string \<Rightarrow> Time option) \<Rightarrow> TimeShardingStrategy \<Rightarrow> val \<Rightarrow> val
     \<Rightarrow> (Time \<times> Time) option" where
  "ParseTimeRange now1 now2 tparse s startValue endValue =
     Option.bind (convertToTime now1 tparse s startValue) (\<lambda>startTime.
     Option.bind (convertToTime now2 tparse s endValue) (\<lambda>endTime.
       if time_After startTime endTime then Some (endTime, startTime)
       else Some (startTime, endTime)))"

definition GetAllTableNamesInRangeWithValues ::
  "Time \<Rightarrow> Time \<Rightarrow> (string \<Rightarrow> string \<Rightarrow> Time option) \<Rightarrow> TimeShardingStrategy \<Rightarrow> string
     \<Rightarrow> val \<Rightarrow> val \<Rightarrow> string list option" where
  "GetAllTableNamesInRangeWithValues now1 now2 tparse s baseTableName startValue endValue =
     Option.bind (convertToTime now1 tparse s startValue) (\<lambda>startTime.
     Option.bind (convertToTime now2 tparse s endValue) (\<lambda>endTime.
       if time_After startTime endTime
       then GetAllTableNamesInRange s baseTableName endTime startTime
       else GetAllTableNamesInRange s baseTableName startTime endTime))"


subsection \<open>Where the conversion reads the clock\<close>

text \<open>\<open>stringFallsBack\<close> and \<open>fallsBack\<close> mark the values for which auto-detection returns
  \<^verbatim>\<open>time.Now()\<close>: they follow \<open>parseStringTime\<close>, \<open>reflectTime\<close> and \<open>autoDetectTime\<close>
  branch by branch.\<close>

definition stringFallsBack :: "(string \<Rightarrow> string \<Rightarrow> Time option) \<Rightarrow> string \<Rightarrow> bool" where
  "stringFallsBack tparse str =
     (str = [] \<or> (tryFormats tparse timeFormats str = None \<and> ParseInt str = None))"

fun reflectFallsBack :: "(string \<Rightarrow> string \<Rightarrow> Time option) \<Rightarrow> val \<Rightarrow> bool" where
  "reflectFallsBack tparse (VInt v) = False"
| "reflectFallsBack tparse (VInt8 v) = False"
| "reflectFallsBack tparse (VInt16 v) = False"
| "reflectFallsBack tparse (VInt32 v) = False"
| "reflectFallsBack tparse (VInt64 v) = False"
| "reflectFallsBack tparse (VNamedInt T v) = False"
| "reflectFallsBack tparse (VUint v) = False"
| "reflectFallsBack tparse (VUint8 v) = False"
| "reflectFallsBack tparse (VUint16 v) = False"
| "reflectFallsBack tparse (VUint32 v) = False"
| "reflectFallsBack tparse (VUint64 v) = False"
| "reflectFallsBack tparse (VNamedUint T v) = False"
| "reflectFallsBack tparse (VString v) = stringFallsBack tparse v"
| "reflectFallsBack tparse _ = True"

fun fallsBack :: "(string \<Rightarrow> string \<Rightarrow> Time option) \<Rightarrow> val \<Rightarrow> bool" where
  "fallsBack tparse (VTime v) = False"
| "fallsBack tparse (VInt v) = False"
| "fallsBack tparse (VInt32 v) = False"
| "fallsBack tparse (VInt64 v) = False"
| "fallsBack tparse (VUint v) = False"
| "fallsBack tparse (VUint32 v) = False"
| "fallsBack tparse (VUint64 v) = False"
| "fallsBack tparse (VString v) = stringFallsBack tparse v"
| "fallsBack tparse (VPtr (VTime v)) = False"
| "fallsBack tparse VNilPtr = True"
| "fallsBack tparse VNil = True"
| "fallsBack tparse (VPtr p) = reflectFallsBack tparse p"
| "fallsBack tparse (VPtrIface (VString v)) = stringFallsBack tparse v"
| "fallsBack tparse (VPtrIface p) = True"
| "fallsBack tparse v = reflectFallsBack tparse v"

text \<open>The reading of an integer timestamp in the words of the specification: epoch
  seconds when the magnitude is at most \<open>10\<^sup>1\<^sup>0\<close>, epoch milliseconds otherwise.\<close>

definition spec_epochTime :: "int \<Rightarrow> Time" where
  "spec_epochTime v =
     (if \<bar>v\<bar> \<le> 10000000000 then time_Unix v 0
      else time_Unix (v div 1000) ((v mod 1000) * 1000000))"

section \<open>Custom strategy and the strategy interface\<close>

text \<open>The Custom strategy holds caller-supplied functions.  The value-extraction
  function works on model objects and is left out.\<close>

record CustomShardingStrategy =
  cs_baseTableName :: string
  cs_shardingKey :: string
  cs_getTableNameFunc :: "string \<Rightarrow> val \<Rightarrow> string"
  cs_getAllTablesFunc :: "string \<Rightarrow> string list"

definition CustomGetTableName :: "CustomShardingStrategy \<Rightarrow> string \<Rightarrow> val \<Rightarrow> string" where
  "CustomGetTableName s baseTableName shardingValue =
     cs_getTableNameFunc s baseTableName shardingValue"

text \<open>The interface \<^verbatim>\<open>ShardingStrategy\<close> with its five implementations, and what a call of
  \<open>GetTableName\<close> through it can do: return a name, panic, or not return.\<close>

datatype strategy =
    HashStrategy HashShardingStrategy
  | TimeStrategy TimeShardingStrategy
  | RangeStrategy RangeShardingStrategy
  | ModuloStrategy ModuloShardingStrategy
  | CustomStrategy CustomShardingStrategy

datatype outcome = Returns string | Panics panic | NeverReturns

definition ofPanic :: "panic + string \<Rightarrow> outcome" where
  "ofPanic r = (case r of Inl p \<Rightarrow> Panics p | Inr name \<Rightarrow> Returns name)"

definition ofOption :: "string option \<Rightarrow> outcome" where
  "ofOption r = (case r of None \<Rightarrow> NeverReturns | Some name \<Rightarrow> Returns name)"

fun GetTableName ::
  "Time \<Rightarrow> (val \<Rightarrow> string) \<Rightarrow> (string \<Rightarrow> string \<Rightarrow> Time option) \<Rightarrow> strategy \<Rightarrow> string \<Rightarrow> val
     \<Rightarrow> outcome" where
  "GetTableName now fmtv tparse (HashStrategy s) base v = ofPanic (HashGetTableName fmtv s base v)"
| "GetTableName now fmtv tparse (TimeStrategy s) base v =
     ofOption (TimeGetTableName now tparse s base v)"
| "GetTableName now fmtv tparse (RangeStrategy s) base v = ofPanic (RangeGetTableName fmtv s base v)"
| "GetTableName now fmtv tparse (ModuloStrategy s) base v =
     ofPanic (ModuloGetTableName fmtv s base v)"
| "GetTableName now fmtv tparse (CustomStrategy s) base v = Returns (CustomGetTableName s base v)"

text \<open>The strategies and values for which \<open>GetTableName\<close> is shown not to depend on the
  clock: every strategy but the Time strategy, and a Time strategy in auto-detect mode, or
  declared to hold \<^verbatim>\<open>time.Time\<close>, on a value that converts without the fallback.\<close>

fun clockFree :: "(string \<Rightarrow> string \<Rightarrow> Time option) \<Rightarrow> strategy \<Rightarrow> val \<Rightarrow> bool" where
  "clockFree tparse (TimeStrategy s) v =
     (if ts_fieldType s = TimeFieldTypeAuto then \<not> fallsBack tparse v
      else if ts_fieldType s = TimeFieldTypeTime then asTime v \<noteq> None
      else False)"
| "clockFree tparse _ v = True"

text \<open>The values on which a Time strategy is shown to name the table of the current
  instant: nil in every mode, in auto-detect mode a value for which the conversion falls
  back, and with the field declared to hold \<^verbatim>\<open>time.Time\<close> every value that is neither a
  \<^verbatim>\<open>time.Time\<close> nor a non-nil \<^verbatim>\<open>*time.Time\<close>.\<close>

definition followsClock ::
  "(string \<Rightarrow> string \<Rightarrow> Time option) \<Rightarrow> TimeShardingStrategy \<Rightarrow> val \<Rightarrow> bool" where
  "followsClock tparse s v =
     (v = VNil \<or>
      (ts_fieldType s = TimeFieldTypeAuto \<and> fallsBack tparse v) \<or>
      (ts_fieldType s = TimeFieldTypeTime \<and> asTime v = None))"


section \<open>Deduplication of result records\<close>

text \<open>
  A result record is a Go \<^verbatim>\<open>map[string]interface{}\<close>: a finite map from column names
  to values.  \<open>fmtv\<close> again stands for \<^verbatim>\<open>fmt.Sprintf("%v", x)\<close>.

  Go leaves the iteration order of a map unspecified, and it may differ from one \<^verbatim>\<open>range\<close>
  statement to the next over the same map.  The order in which a \<^verbatim>\<open>range\<close> visits the
  keys is therefore an input of the model: a list \<open>order\<close> of the keys of the map.
\<close>

type_synonym ResultRecord = "string \<rightharpoonup> val"

definition validOrder :: "string list \<Rightarrow> ResultRecord \<Rightarrow> bool" where
  "validOrder order result = (distinct order \<and> set order = dom result)"

text \<open>\<^verbatim>\<open>strings.Join\<close>\<close>

fun Join :: "string list \<Rightarrow> string \<Rightarrow> string" where
  "Join [] sep = []"
| "Join [p] sep = p"
| "Join (p # ps) sep = p @ sep @ Join ps sep"

text \<open>The test that both loops of \<open>generateResultKey\<close> apply to a field: present in the
  map, not nil, and rendered to a text that is neither empty nor \<^verbatim>\<open><nil>\<close>.  The key part
  of such a field is \<^verbatim>\<open>fmt.Sprintf("%s:%v", field, val)\<close>.\<close>

definition keyPart :: "(val \<Rightarrow> string) \<Rightarrow> ResultRecord \<Rightarrow> string \<Rightarrow> string option" where
  "keyPart fmtv result field =
     (case result field of
        None \<Rightarrow> None
      | Some val \<Rightarrow>
          if val \<noteq> VNil then
            (let strVal = fmtv val
             in if strVal \<noteq> [] \<and> strVal \<noteq> ''<nil>''
                then Some (field @ '':'' @ fmtv val) else None)
          else None)"

text \<open>The inner loop over the fields of one group: \<open>None\<close> is \<^verbatim>\<open>allFound = false\<close>.\<close>

fun groupKeyParts :: "(val \<Rightarrow> string) \<Rightarrow> ResultRecord \<Rightarrow> string list \<Rightarrow> string list option" where
  "groupKeyParts fmtv result [] = Some []"
| "groupKeyParts fmtv result (field # flds) =
     (case keyPart fmtv result field of
        None \<Rightarrow> None
      | Some part \<Rightarrow>
          (case groupKeyParts fmtv result flds of
             None \<Rightarrow> None
           | Some parts \<Rightarrow> Some (part # parts)))"

text \<open>The fallback loop \<^verbatim>\<open>for k, v := range result\<close>, visiting the keys in \<open>order\<close>.\<close>

definition allFieldsKey :: "(val \<Rightarrow> string) \<Rightarrow> string list \<Rightarrow> ResultRecord \<Rightarrow> string" where
  "allFieldsKey fmtv order result =
     (let keyParts = List.map_filter (keyPart fmtv result) order
      in if keyParts = [] then [] else Join keyParts ''|'')"

fun generateResultKey ::
  "(val \<Rightarrow> string) \<Rightarrow> string list \<Rightarrow> ResultRecord \<Rightarrow> string list list \<Rightarrow> string" where
  "generateResultKey fmtv order result [] = allFieldsKey fmtv order result"
| "generateResultKey fmtv order result (flds # keyFieldGroups) =
     (case groupKeyParts fmtv result flds of
        Some keyParts \<Rightarrow>
          if keyParts \<noteq> [] then Join keyParts ''|''
          else generateResultKey fmtv order result keyFieldGroups
      | None \<Rightarrow> generateResultKey fmtv order result keyFieldGroups)"

text \<open>
  \<open>deduplicateResults\<close>.  \<open>orders i\<close> is the iteration order met by the call of
  \<open>generateResultKey\<close> for the record at position \<open>i\<close>; \<open>seenKeys\<close> and \<open>deduplicated\<close>
  are the two variables of the loop.
\<close>

fun dedupLoop ::
  "(val \<Rightarrow> string) \<Rightarrow> (nat \<Rightarrow> string list) \<Rightarrow> string list list \<Rightarrow> (string \<Rightarrow> bool)
     \<Rightarrow> ResultRecord list \<Rightarrow> nat \<Rightarrow> ResultRecord list \<Rightarrow> ResultRecord list" where
  "dedupLoop fmtv orders keyFieldGroups seenKeys deduplicated i [] = deduplicated"
| "dedupLoop fmtv orders keyFieldGroups seenKeys deduplicated i (result # results) =
     (let key = generateResultKey fmtv (orders i) result keyFieldGroups
      in if \<not> seenKeys key
         then dedupLoop fmtv orders keyFieldGroups (seenKeys(key := True))
                (deduplicated @ [result]) (Suc i) results
         else dedupLoop fmtv orders keyFieldGroups seenKeys deduplicated (Suc i) results)"

definition deduplicateResults ::
  "(val \<Rightarrow> string) \<Rightarrow> (nat \<Rightarrow> string list) \<Rightarrow> ResultRecord list \<Rightarrow> string list list
     \<Rightarrow> ResultRecord list" where
  "deduplicateResults fmtv orders results keyFieldGroups =
     (if results = [] then results
      else dedupLoop fmtv orders keyFieldGroups (\<lambda>_. False) [] 0 results)"

definition GetDefaultDeduplicateFields :: "string list list" where
  "GetDefaultDeduplicateFields =
     [[''id''],
      [''user_id'', ''order_id'', ''payment_id''],
      [''user_id'', ''order_id''],
      [''order_id'', ''payment_id''],
      [''user_id''],
      [''order_id''],
      [''payment_id''],
      [''log_id''],
      [''product_id'']]"

subsection \<open>The key in the words of the specification, and as the code builds it\<close>

text \<open>The specification: the first group whose every field is present and non-null gives
  the key, the \<open>field:value\<close> pairs joined in the group's order; if no group matches, all
  non-null fields present on the record give it.\<close>

definition spec_present :: "ResultRecord \<Rightarrow> string \<Rightarrow> bool" where
  "spec_present result field = (case result field of None \<Rightarrow> False | Some val \<Rightarrow> val \<noteq> VNil)"

definition fieldPair :: "(val \<Rightarrow> string) \<Rightarrow> ResultRecord \<Rightarrow> string \<Rightarrow> string" where
  "fieldPair fmtv result field = field @ '':'' @ fmtv (the (result field))"

definition spec_key ::
  "(val \<Rightarrow> string) \<Rightarrow> string list \<Rightarrow> ResultRecord \<Rightarrow> string list list \<Rightarrow> string" where
  "spec_key fmtv order result keyFieldGroups =
     (case find (\<lambda>flds. list_all (spec_present result) flds) keyFieldGroups of
        Some flds \<Rightarrow> Join (map (fieldPair fmtv result) flds) ''|''
      | None \<Rightarrow> Join (map (fieldPair fmtv result) (filter (spec_present result) order)) ''|'')"

text \<open>What the code requires of a field, beyond presence: a rendering that is neither
  empty nor \<^verbatim>\<open><nil>\<close>; and of a group: at least one field.\<close>

definition usable :: "(val \<Rightarrow> string) \<Rightarrow> ResultRecord \<Rightarrow> string \<Rightarrow> bool" where
  "usable fmtv result field =
     (case result field of
        None \<Rightarrow> False
      | Some val \<Rightarrow> val \<noteq> VNil \<and> fmtv val \<noteq> [] \<and> fmtv val \<noteq> ''<nil>'')"

definition usableGroup :: "(val \<Rightarrow> string) \<Rightarrow> ResultRecord \<Rightarrow> string list \<Rightarrow> bool" where
  "usableGroup fmtv result flds = (flds \<noteq> [] \<and> list_all (usable fmtv result) flds)"

text \<open>The key at each position of a list of records, and the positions whose key has not
  occurred at an earlier position.\<close>

definition keyAt ::
  "(val \<Rightarrow> string) \<Rightarrow> (nat \<Rightarrow> string list) \<Rightarrow> string list list \<Rightarrow> ResultRecord list \<Rightarrow> nat
     \<Rightarrow> string" where
  "keyAt fmtv orders keyFieldGroups results i =
     generateResultKey fmtv (orders i) (results ! i) keyFieldGroups"

definition firstSeen ::
  "(val \<Rightarrow> string) \<Rightarrow> (nat \<Rightarrow> string list) \<Rightarrow> string list list \<Rightarrow> ResultRecord list \<Rightarrow> nat
     \<Rightarrow> bool" where
  "firstSeen fmtv orders keyFieldGroups results i =
     (\<forall>j < i. keyAt fmtv orders keyFieldGroups results j
               \<noteq> keyAt fmtv orders keyFieldGroups results i)"

text \<open>\<open>validOrders\<close>: each \<open>orders i\<close> is an order in which a \<^verbatim>\<open>range\<close> statement can visit
  the record at position \<open>i\<close>.  \<open>orderFree\<close>: the key of each record of the list is the
  same for every order in which its map can be visited.\<close>

definition validOrders :: "(nat \<Rightarrow> string list) \<Rightarrow> ResultRecord list \<Rightarrow> bool" where
  "validOrders orders results = (\<forall>i < length results. validOrder (orders i) (results ! i))"

definition orderFree :: "(val \<Rightarrow> string) \<Rightarrow> string list list \<Rightarrow> ResultRecord list \<Rightarrow> bool" where
  "orderFree fmtv keyFieldGroups results =
     (\<forall>result \<in> set results. \<forall>order order'.
        validOrder order result \<and> validOrder order' result \<longrightarrow>
        generateResultKey fmtv order result keyFieldGroups
          = generateResultKey fmtv order' result keyFieldGroups)"

section \<open>Cross-shard fan-out\<close>

text \<open>
  The store is a function \<open>exec\<close> from the query of one loop iteration (a table name, or a
  combination of table names) to either the error message or the rows it delivers.
  The enumeration of the table names and the construction of the SQL text precede the
  loops and are not part of the model.
\<close>

subsection \<open>Classification of error messages\<close>

text \<open>\<^verbatim>\<open>strings.ToLower\<close> on the ASCII letters (error messages are taken to be ASCII),
  and \<^verbatim>\<open>strings.Contains\<close>.\<close>

definition toLowerChar :: "char \<Rightarrow> char" where
  "toLowerChar c =
     (let n = (of_char c :: nat) in if 65 \<le> n \<and> n \<le> 90 then char_of (n + 32) else c)"

definition ToLower :: "string \<Rightarrow> string" where
  "ToLower s = map toLowerChar s"

fun HasPrefix :: "string \<Rightarrow> string \<Rightarrow> bool" where
  "HasPrefix s [] = True"
| "HasPrefix [] (p # ps) = False"
| "HasPrefix (c # cs) (p # ps) = (c = p \<and> HasPrefix cs ps)"

fun Contains :: "string \<Rightarrow> string \<Rightarrow> bool" where
  "Contains [] substr = (substr = [])"
| "Contains (c # cs) substr = (HasPrefix (c # cs) substr \<or> Contains cs substr)"

text \<open>The test of \<open>CrossTableQueryWithTimeRange\<close> and \<open>CrossTableCount\<close>.\<close>

definition missingTableError :: "string \<Rightarrow> bool" where
  "missingTableError msg =
     (let errMsg = ToLower msg
      in Contains errMsg ''doesn't exist'' \<or>
         Contains errMsg ''unknown table'' \<or>
         Contains errMsg ''table'' \<and> Contains errMsg ''not found'')"

text \<open>The test of \<open>CrossTableMultiJoin\<close> and \<open>CrossTableMultiJoinCount\<close>.\<close>

definition missingTableOrColumnError :: "string \<Rightarrow> bool" where
  "missingTableOrColumnError msg =
     (let errMsg = ToLower msg
      in Contains errMsg ''doesn't exist'' \<or>
         Contains errMsg ''unknown table'' \<or>
         Contains errMsg ''table'' \<and> Contains errMsg ''not found'' \<or>
         Contains errMsg ''unknown column'')"

text \<open>The test in the words of the specification: the four phrases, for every fan-out.\<close>

definition spec_missingShard :: "string \<Rightarrow> bool" where
  "spec_missingShard msg =
     (Contains (ToLower msg) ''doesn't exist'' \<or>
      Contains (ToLower msg) ''unknown table'' \<or>
      (Contains (ToLower msg) ''table'' \<and> Contains (ToLower msg) ''not found'') \<or>
      Contains (ToLower msg) ''unknown column'')"

subsection \<open>Query and count over the tables of one strategy\<close>

datatype error =
    StoreError string
  | NoTablesFound
  | QueryErrorOnTables "string list" string
  | CountErrorOnTables "string list" string

text \<open>The loop of \<open>CrossTableQueryWithTimeRange\<close>.  The rows of each table are appended
  to the destination as the loop goes, so the destination is a state of the loop; the
  result is the destination and the error returned, if any.\<close>

fun queryTables ::
  "(string \<Rightarrow> string + 'r list) \<Rightarrow> 'r list \<Rightarrow> string list \<Rightarrow> 'r list \<times> error option" where
  "queryTables exec dest [] = (dest, None)"
| "queryTables exec dest (tableName # tableNames) =
     (case exec tableName of
        Inl msg \<Rightarrow>
          if missingTableError msg then queryTables exec dest tableNames
          else (dest, Some (StoreError msg))
      | Inr tableResults \<Rightarrow> queryTables exec (dest @ tableResults) tableNames)"

definition CrossTableQueryWithTimeRange ::
  "(string \<Rightarrow> string + 'r list) \<Rightarrow> 'r list \<Rightarrow> string list \<Rightarrow> 'r list \<times> error option" where
  "CrossTableQueryWithTimeRange exec dest tableNames =
     (if tableNames = [] then (dest, Some NoTablesFound)
      else queryTables exec dest tableNames)"

fun countTables ::
  "(string \<Rightarrow> string + 64 word) \<Rightarrow> 64 word \<Rightarrow> string list \<Rightarrow> error + 64 word" where
  "countTables exec totalCount [] = Inr totalCount"
| "countTables exec totalCount (tableName # tableNames) =
     (case exec tableName of
        Inl msg \<Rightarrow>
          if missingTableError msg then countTables exec totalCount tableNames
          else Inl (StoreError msg)
      | Inr count \<Rightarrow> countTables exec (totalCount + count) tableNames)"

text \<open>The sum of the counts that the store delivers, the failing tables skipped.\<close>

definition countsOf :: "(string \<Rightarrow> string + 64 word) \<Rightarrow> string list \<Rightarrow> 64 word" where
  "countsOf exec tableNames =
     sum_list (map (\<lambda>t. case exec t of Inl msg \<Rightarrow> 0 | Inr count \<Rightarrow> count) tableNames)"

definition CrossTableCount :: "(string \<Rightarrow> string + 64 word) \<Rightarrow> string list \<Rightarrow> error + 64 word" where
  "CrossTableCount exec tableNames = countTables exec 0 tableNames"

subsection \<open>Multi-way join over the table combinations\<close>

text \<open>The loop shared by \<open>CrossTableMultiJoin\<close> and \<open>CrossTableMultiJoinCount\<close>; \<open>wrap\<close>
  is the \<^verbatim>\<open>fmt.Errorf\<close> that wraps the error of the store.\<close>

fun joinCombinations ::
  "(string list \<Rightarrow> string + ResultRecord list) \<Rightarrow> (string list \<Rightarrow> string \<Rightarrow> error)
     \<Rightarrow> ResultRecord list \<Rightarrow> string list list \<Rightarrow> error + ResultRecord list" where
  "joinCombinations exec wrap allResults [] = Inr allResults"
| "joinCombinations exec wrap allResults (combination # tableCombinations) =
     (case exec combination of
        Inl msg \<Rightarrow>
          if missingTableOrColumnError msg
          then joinCombinations exec wrap allResults tableCombinations
          else Inl (wrap combination msg)
      | Inr results \<Rightarrow> joinCombinations exec wrap (allResults @ results) tableCombinations)"

text \<open>What a call can end in: a value, a returned error, or a panic.\<close>

datatype 'a result = Done 'a | Failed error | Panicked panic

text \<open>\<open>convertResults\<close> appends one converted element per row to the destination.
  \<open>mapToStruct\<close>, which fills a struct of the destination's element type by reflection, is
  a parameter; it returns no error but may panic.\<close>

fun convertLoop :: "(ResultRecord \<Rightarrow> panic + 'a) \<Rightarrow> 'a list \<Rightarrow> ResultRecord list \<Rightarrow> 'a list result" where
  "convertLoop mapToStruct dest [] = Done dest"
| "convertLoop mapToStruct dest (r # rs) =
     (case mapToStruct r of
        Inl p \<Rightarrow> Panicked p
      | Inr elem \<Rightarrow> convertLoop mapToStruct (dest @ [elem]) rs)"

definition convertResults ::
  "(ResultRecord \<Rightarrow> panic + 'a) \<Rightarrow> ResultRecord list \<Rightarrow> 'a list \<Rightarrow> 'a list result" where
  "convertResults mapToStruct results dest =
     (if results = [] then Done dest else convertLoop mapToStruct dest results)"

definition effectiveFields :: "string list list \<Rightarrow> string list list" where
  "effectiveFields deduplicateFields =
     (if deduplicateFields = [] then GetDefaultDeduplicateFields else deduplicateFields)"

definition CrossTableMultiJoin ::
  "(val \<Rightarrow> string) \<Rightarrow> (nat \<Rightarrow> string list) \<Rightarrow> (ResultRecord \<Rightarrow> panic + 'a)
     \<Rightarrow> (string list \<Rightarrow> string + ResultRecord list) \<Rightarrow> string list list \<Rightarrow> string list list
     \<Rightarrow> 'a list \<Rightarrow> 'a list result" where
  "CrossTableMultiJoin fmtv orders mapToStruct exec tableCombinations deduplicateFields dest =
     (case joinCombinations exec QueryErrorOnTables [] tableCombinations of
        Inl err \<Rightarrow> Failed err
      | Inr allResults \<Rightarrow>
          convertResults mapToStruct
            (deduplicateResults fmtv orders allResults (effectiveFields deduplicateFields))
            dest)"

definition CrossTableMultiJoinCount ::
  "(val \<Rightarrow> string) \<Rightarrow> (nat \<Rightarrow> string list)
     \<Rightarrow> (string list \<Rightarrow> string + ResultRecord list) \<Rightarrow> string list list \<Rightarrow> string list list
     \<Rightarrow> error + int" where
  "CrossTableMultiJoinCount fmtv orders exec tableCombinations deduplicateFields =
     (case joinCombinations exec CountErrorOnTables [] tableCombinations of
        Inl err \<Rightarrow> Inl err
      | Inr tempResults \<Rightarrow>
          Inr (int (length
            (deduplicateResults fmtv orders tempResults (effectiveFields deduplicateFields)))))"

section \<open>Pagination\<close>

text \<open>
  Page numbers, page sizes and offsets are Go \<^verbatim>\<open>int\<close>s.  They are integers here, and the
  two operations that can overflow, the product and the sum in \<open>paginateSlice\<close>, wrap at
  64 bits.  \<^verbatim>\<open>reflect.Value.Slice(i, j)\<close> panics when \<open>i < 0\<close> or \<open>j < i\<close>.
\<close>

definition wrap64 :: "int \<Rightarrow> int" where
  "wrap64 x = signed_take_bit 63 x"

definition paginateSlice :: "'a list \<Rightarrow> int \<Rightarrow> int \<Rightarrow> 'a list result" where
  "paginateSlice sliceElem page pageSize =
     (let len = int (length sliceElem);
          offset = wrap64 ((page - 1) * pageSize)
      in if len \<le> offset then Done []
         else
           let endIdx = wrap64 (offset + pageSize);
               endIdx = (if len < endIdx then len else endIdx)
           in if offset < 0 \<or> endIdx < offset then Panicked SliceBounds
              else Done (take (nat (endIdx - offset)) (drop (nat offset) sliceElem)))"

record 'a Paginator =
  Page :: int
  PageSize :: int
  Total :: int
  TotalPages :: int
  Data :: "'a list"

text \<open>\<open>CrossTableMultiJoinPaginate\<close> runs the fan-out twice, first for the count and then
  for the data; \<open>orders1\<close> and \<open>orders2\<close> are the iteration orders met by the two
  deduplications.\<close>

definition CrossTableMultiJoinPaginate ::
  "(val \<Rightarrow> string) \<Rightarrow> (nat \<Rightarrow> string list) \<Rightarrow> (nat \<Rightarrow> string list)
     \<Rightarrow> (ResultRecord \<Rightarrow> panic + 'a) \<Rightarrow> (string list \<Rightarrow> string + ResultRecord list)
     \<Rightarrow> string list list \<Rightarrow> string list list \<Rightarrow> 'a list \<Rightarrow> int \<Rightarrow> int
     \<Rightarrow> 'a Paginator result" where
  "CrossTableMultiJoinPaginate fmtv orders1 orders2 mapToStruct exec tableCombinations
       deduplicateFields dest page pageSize =
     (let page = (if page < 1 then 1 else page);
          pageSize = (if pageSize < 1 then 10 else pageSize)
      in case CrossTableMultiJoinCount fmtv orders1 exec tableCombinations deduplicateFields of
           Inl err \<Rightarrow> Failed err
         | Inr total' \<Rightarrow>
             let totalPages = total' sdiv pageSize;
                 totalPages = (if 0 < total' smod pageSize then totalPages + 1 else totalPages)
             in case CrossTableMultiJoin fmtv orders2 mapToStruct exec tableCombinations
                       deduplicateFields dest of
                  Failed err \<Rightarrow> Failed err
                | Panicked p \<Rightarrow> Panicked p
                | Done dest' \<Rightarrow>
                    (case paginateSlice dest' page pageSize of
                       Failed err \<Rightarrow> Failed err
                     | Panicked p \<Rightarrow> Panicked p
                     | Done paginatedData \<Rightarrow>
                         Done \<lparr> Page = page, PageSize = pageSize, Total = total',
                                TotalPages = totalPages, Data = paginatedData \<rparr>))"

text \<open>The page of a result, empty when the call did not return one.\<close>

definition pageData :: "'a Paginator result \<Rightarrow> 'a list" where
  "pageData r = (case r of Done p \<Rightarrow> Data p | _ \<Rightarrow> [])"

text \<open>The rows that the store delivers for a list of queries, the failing ones skipped.\<close>

definition rowsOf :: "('q \<Rightarrow> string + 'r list) \<Rightarrow> 'q list \<Rightarrow> 'r list" where
  "rowsOf exec qs = concat (map (\<lambda>q. case exec q of Inl msg \<Rightarrow> [] | Inr rows \<Rightarrow> rows) qs)"


section \<open>Verified properties\<close>

subsection \<open>Hash, Range and Modulo strategies\<close>

lemma sint_pos_eq_uint: "0 < sint (w :: 64 word) \<Longrightarrow> uint w = sint w"
proof -
  assume a: "0 < sint w"
  have "uint w = take_bit 64 (sint w)" by (simp add: uint_sint)
  also have "\<dots> = sint w"
    using a sint_lt [of w] by (simp add: take_bit_int_eq_self)
  finally show ?thesis .
qed

lemma sint_word_of_int_small:
  "- (2 ^ 63) \<le> z \<Longrightarrow> z < 2 ^ 63 \<Longrightarrow> sint (word_of_int z :: 64 word) = z"
  by (simp add: sint_sbintrunc' signed_take_bit_int_eq_self)

text \<open>The constructors repair a non-positive count, so every constructed strategy has
  a positive count.\<close>

lemma NewHash_count_pos: "0 < sint (hs_tableCount (NewHashShardingStrategy b k n))"
  by (simp add: NewHashShardingStrategy_def)

lemma NewRange_count_pos:
  "0 < sint (rs_tableCount (NewRangeShardingStrategy b k r n)) \<and>
   0 < sint (rs_rangeSize (NewRangeShardingStrategy b k r n))"
  by (simp add: NewRangeShardingStrategy_def)

lemma NewModulo_count_pos: "0 < sint (ms_modulo (NewModuloShardingStrategy b k n))"
  by (simp add: NewModuloShardingStrategy_def)

lemma hash_index_range:
  assumes "0 < sint (N :: 64 word)"
  shows "0 \<le> uint (h mod N) \<and> uint (h mod N) < sint N"
proof -
  have "uint N = sint N" using assms by (rule sint_pos_eq_uint)
  moreover have "uint (h mod N) = uint h mod uint N" by (rule uint_mod_distrib)
  moreover have "0 < uint N" using assms calculation by simp
  ultimately show ?thesis by simp
qed

text \<open>For every sharding value other than nil and a nil pointer, the Hash strategy
  returns \<open>base_i\<close> with \<open>0 \<le> i < tableCount\<close>.\<close>

lemma Hash_in_range:
  assumes "0 < sint (hs_tableCount s)" and "v \<noteq> VNil" and "v \<noteq> VNilPtr"
  shows "\<exists>i. 0 \<le> i \<and> i < sint (hs_tableCount s) \<and>
             HashGetTableName fmtv s base v = Inr (table_name base i)"
proof -
  obtain h where h: "hashValue fmtv v = Inr h"
    using assms(2,3) by (cases v) auto
  have nz: "hs_tableCount s \<noteq> 0" using assms(1) by auto
  show ?thesis
    using hash_index_range [OF assms(1), of h] h nz
    by (auto simp: HashGetTableName_def)
qed

lemma Hash_in_all_names:
  assumes "0 < sint (hs_tableCount s)" and "v \<noteq> VNil" and "v \<noteq> VNilPtr"
  shows "\<exists>name \<in> set (HashGetAllTableNames s base).
           HashGetTableName fmtv s base v = Inr name"
proof -
  obtain i where i: "0 \<le> i" "i < sint (hs_tableCount s)"
      "HashGetTableName fmtv s base v = Inr (table_name base i)"
    using Hash_in_range [OF assms] by blast
  have "nat i \<in> set [0 ..< nat (sint (hs_tableCount s))]" using i by simp
  then have "table_name base (int (nat i)) \<in> set (HashGetAllTableNames s base)"
    unfolding HashGetAllTableNames_def by (simp only: set_map image_eqI)
  then show ?thesis using i by auto
qed

text \<open>An integer key of the Range strategy is clamped into \<open>[0, tableCount)\<close>.\<close>

lemma Range_int_in_range:
  assumes "0 < sint (rs_tableCount s)" and "rs_rangeSize s \<noteq> 0" and "toInt64 v = Some x"
  shows "\<exists>i. 0 \<le> i \<and> i < sint (rs_tableCount s) \<and>
             RangeGetTableName fmtv s base v = Inr (table_name base i)"
proof -
  have m1: "sint (rs_tableCount s - 1) = sint (rs_tableCount s) - 1"
    using assms(1) sint_range_size [of "rs_tableCount s"]
    by (simp add: sint_word_ariths signed_take_bit_int_eq_self word_size)
  let ?q = "go_div x (rs_rangeSize s)"
  consider (hi) "sint (rs_tableCount s) \<le> sint ?q"
    | (neg) "sint ?q < sint (rs_tableCount s)" "sint ?q < 0"
    | (mid) "sint ?q < sint (rs_tableCount s)" "0 \<le> sint ?q"
    by linarith
  then show ?thesis
  proof cases
    case hi
    then show ?thesis using assms m1
      by (intro exI [of _ "sint (rs_tableCount s) - 1"])
         (simp add: RangeGetTableName_def Let_def)
  next
    case neg
    then show ?thesis using assms
      by (intro exI [of _ 0]) (simp add: RangeGetTableName_def Let_def)
  next
    case mid
    then show ?thesis using assms
      by (intro exI [of _ "sint ?q"]) (simp add: RangeGetTableName_def Let_def)
  qed
qed

text \<open>An integer key of the Modulo strategy, negative or not, lands in \<open>[0, modulo)\<close>.\<close>

lemma Modulo_int_in_range:
  assumes "0 < sint (ms_modulo s)" and "toInt64 v = Some x"
  shows "\<exists>i. 0 \<le> i \<and> i < sint (ms_modulo s) \<and>
             ModuloGetTableName fmtv s base v = Inr (table_name base i)"
proof -
  let ?m = "ms_modulo s"
  have nz: "?m \<noteq> 0" using assms(1) by auto
  have mr: "sint ?m < 2 ^ 63" using sint_range_size [of ?m] by (simp add: word_size)
  have r1: "- sint ?m < sint x smod sint ?m" "sint x smod sint ?m < sint ?m"
    using smod_int_range [of "sint ?m" "sint x"] assms(1) by auto
  have sr: "sint (go_rem x ?m) = sint x smod sint ?m"
    unfolding go_rem_def using r1 mr by (intro sint_word_of_int_small) auto
  show ?thesis
  proof (cases "sint (go_rem x ?m) < 0")
    case False
    then show ?thesis using assms nz sr r1
      by (intro exI [of _ "sint x smod sint ?m"])
         (simp add: ModuloGetTableName_def Let_def)
  next
    case True
    have neg: "sint (- go_rem x ?m) = - (sint x smod sint ?m)"
      using sr r1 mr True
      by (simp add: sint_word_ariths signed_take_bit_int_eq_self)
    have pos: "0 < - (sint x smod sint ?m)" using True sr by simp
    have "sint (go_rem (- go_rem x ?m) ?m) = (- (sint x smod sint ?m)) smod sint ?m"
      unfolding go_rem_def [of "- go_rem x ?m"] neg
      using smod_int_range [of "sint ?m" "- (sint x smod sint ?m)"] assms(1) mr
      by (intro sint_word_of_int_small) auto
    moreover have "(- (sint x smod sint ?m)) smod sint ?m = - (sint x smod sint ?m)"
      using pos r1 assms(1) by (simp add: smod_mod_positive del: minus_smod_eq)
    ultimately show ?thesis using assms nz True r1 pos
      by (intro exI [of _ "- (sint x smod sint ?m)"])
         (simp add: ModuloGetTableName_def Let_def)
  qed
qed

text \<open>A key that is no integer goes to the Hash fallback with the strategy's own count.\<close>

lemma Range_other_in_range:
  assumes "toInt64 v = None" and "v \<noteq> VNil" and "v \<noteq> VNilPtr"
  shows "\<exists>i. 0 \<le> i \<and>
             i < sint (hs_tableCount (NewHashShardingStrategy base (rs_shardingKey s) (rs_tableCount s))) \<and>
             RangeGetTableName fmtv s base v = Inr (table_name base i)"
  using Hash_in_range [OF NewHash_count_pos assms(2,3)] assms(1)
  by (simp add: RangeGetTableName_def)

lemma Modulo_other_in_range:
  assumes "toInt64 v = None" and "v \<noteq> VNil" and "v \<noteq> VNilPtr"
  shows "\<exists>i. 0 \<le> i \<and>
             i < sint (hs_tableCount (NewHashShardingStrategy base (ms_shardingKey s) (ms_modulo s))) \<and>
             ModuloGetTableName fmtv s base v = Inr (table_name base i)"
  using Hash_in_range [OF NewHash_count_pos assms(2,3)] assms(1)
  by (simp add: ModuloGetTableName_def)

text \<open>Concrete runs: key 123 on four hash shards, a negative key modulo 4, and a key
  in the third range bucket.\<close>

lemma Hash_users_123:
  "HashGetTableName fmtv (NewHashShardingStrategy ''users'' ''UserID'' 4) ''users'' (VInt 123)
     = Inr ''users_3''"
  by (simp add: HashGetTableName_def NewHashShardingStrategy_def fnv64a_def fnv_step_def
      show_int_def show_nat.simps digit_char_def table_name_def)

lemma Modulo_negative_key:
  "ModuloGetTableName fmtv (NewModuloShardingStrategy ''t'' ''id'' 4) ''t'' (VInt64 (- 7))
     = Inr ''t_3''"
  by (simp add: ModuloGetTableName_def NewModuloShardingStrategy_def go_rem_def show_int_def
      show_nat.simps digit_char_def table_name_def Let_def)

lemma Range_third_bucket:
  "RangeGetTableName fmtv (NewRangeShardingStrategy ''t'' ''id'' 10000 4) ''t'' (VInt64 25000)
     = Inr ''t_2''"
  by (simp add: RangeGetTableName_def NewRangeShardingStrategy_def go_div_def show_int_def
      show_nat.simps digit_char_def table_name_def Let_def)

text \<open>
  Claim C7.  The claim: for every Hash strategy and every sharding value, \<open>GetTableName\<close>
  returns one of \<open>base_0 .. base_{N-1}\<close>, and likewise the Range and Modulo strategies
  return an index in \<open>[0, count)\<close>.  The lemmas above establish this for every value
  except two: on the nil interface, and on a nil pointer, \<open>hashValue\<close> asks the zero
  \<^verbatim>\<open>reflect.Value\<close> for its interface and panics, so no table name is returned.  The
  Range and Modulo strategies reach the same code through their Hash fallback.
\<close>

theorem GetTableName_nil_panics:
  "HashGetTableName fmtv (NewHashShardingStrategy ''users'' ''UserID'' 4) ''users'' VNil
     = Inl ZeroValueInterface \<and>
   HashGetTableName fmtv (NewHashShardingStrategy ''users'' ''UserID'' 4) ''users'' VNilPtr
     = Inl ZeroValueInterface \<and>
   RangeGetTableName fmtv (NewRangeShardingStrategy ''users'' ''UserID'' 10000 4) ''users'' VNil
     = Inl ZeroValueInterface \<and>
   ModuloGetTableName fmtv (NewModuloShardingStrategy ''users'' ''UserID'' 4) ''users'' VNil
     = Inl ZeroValueInterface"
  by (simp add: HashGetTableName_def RangeGetTableName_def ModuloGetTableName_def)

subsection \<open>Calendar arithmetic\<close>





lemma clock_roundtrip:
  fixes s :: int
  shows "(s mod 86400 div 3600) * 3600 + (s mod 3600 div 60) * 60 + s mod 60 = s mod 86400"
proof -
  have a: "s mod 86400 mod 3600 = s mod 3600" by (simp add: mod_mod_cancel)
  have b: "s mod 3600 mod 60 = s mod 60" by (simp add: mod_mod_cancel)
  have "s mod 86400 = (s mod 86400 div 3600) * 3600 + s mod 86400 mod 3600" by simp
  also have "s mod 86400 mod 3600 = (s mod 3600 div 60) * 60 + s mod 3600 mod 60"
    unfolding a by simp
  finally show ?thesis using b by simp
qed



lemma time_Month_range: "1 \<le> time_Month t \<and> time_Month t \<le> 12"
proof (cases "find (\<lambda>m. time_YearDay t < daysBeforeMonth (time_Year t) (m + 1))
             [1, 2, 3, 4, 5, 6, 7, 8, 9, 10, 11]")
  case None
  then show ?thesis by (simp add: time_Month_def)
next
  case (Some m)
  then have "m \<in> set [1, 2, 3, 4, 5, 6, 7, 8, 9, 10, 11 :: int]"
    by (metis find_Some_iff nth_mem)
  then have "1 \<le> m \<and> m \<le> 12" by auto
  then show ?thesis using Some by (simp add: time_Month_def)
qed





lemma time_Date_in_year:
  assumes "1 \<le> m" "m \<le> 12"
  shows "time_Date y m d h mi s ns = UnixNano (civilNanos y m d h mi s ns)"
proof -
  have "(m - 1) div 12 = 0" "(m - 1) mod 12 = m - 1" using assms by simp_all
  then show ?thesis by (simp add: time_Date_def civilNanos_def Let_def)
qed


lemma unixNano_split:
  "unixNano t =
     (unixDay t * 86400 + time_Hour t * 3600 + time_Minute t * 60 + time_Second t) * 1000000000
       + nanosecond t"
proof -
  have a: "unixSec t mod 86400 =
      time_Hour t * 3600 + time_Minute t * 60 + time_Second t"
    unfolding time_Hour_def time_Minute_def time_Second_def
    by (rule clock_roundtrip [symmetric])
  have "unixSec t = unixDay t * 86400 + unixSec t mod 86400"
    by (simp add: unixDay_def)
  moreover have "unixNano t = unixSec t * 1000000000 + nanosecond t"
    by (simp add: unixSec_def nanosecond_def)
  ultimately show ?thesis using a by (simp add: algebra_simps)
qed

lemma civil_roundtrip:
  "civilNanos (time_Year t) (time_Month t) (time_Day t)
     (time_Hour t) (time_Minute t) (time_Second t) (nanosecond t) = unixNano t"
proof -
  have "daysSinceEpoch (time_Year t) + daysBeforeMonth (time_Year t) (time_Month t)
          + (time_Day t - 1) = unixDay t"
    by (simp add: time_Day_def time_YearDay_def)
  then show ?thesis
    unfolding civilNanos_def using unixNano_split [of t] by simp
qed

lemma time_Date_roundtrip:
  "time_Date (time_Year t) (time_Month t) (time_Day t)
     (time_Hour t) (time_Minute t) (time_Second t) (nanosecond t) = t"
  using time_Month_range [of t] civil_roundtrip [of t]
  by (cases t) (simp add: time_Date_in_year)










lemma collect_inverted_range:
  assumes "time_After startTime endTime"
  shows "collectTableNames s base startTime endTime tableNames = Some tableNames"
  using assms
  by (subst collectTableNames.simps) (auto simp: time_After_def time_Before_def time_Equal_def)

lemma uniqueTableNames_props:
  assumes "distinct result"
  shows "distinct (uniqueTableNames (\<lambda>n. n \<in> set result) result names) \<and>
         set (uniqueTableNames (\<lambda>n. n \<in> set result) result names) = set result \<union> set names"
  using assms
proof (induction names arbitrary: result)
  case Nil
  then show ?case by simp
next
  case (Cons name names)
  show ?case
  proof (cases "name \<in> set result")
    case True
    then show ?thesis using Cons.IH [OF Cons.prems] by auto
  next
    case False
    have upd: "(\<lambda>n. n \<in> set result)(name := True) = (\<lambda>n. n \<in> set (result @ [name]))"
      by (auto simp: fun_eq_iff)
    have "distinct (result @ [name])" using Cons.prems False by simp
    from Cons.IH [OF this] show ?thesis using False by (simp add: upd)
  qed
qed

lemma GetAllTableNamesInRange_distinct:
  assumes "GetAllTableNamesInRange s base startTime endTime = Some names"
  shows "distinct names"
proof -
  have e: "(\<lambda>_. False) = (\<lambda>n. n \<in> set ([] :: string list))" by simp
  show ?thesis
    using assms uniqueTableNames_props [of "[]"]
    unfolding GetAllTableNamesInRange_def e by auto
qed


subsection \<open>Enumeration of a time range\<close>

text \<open>Some instants and steps, computed once.\<close>

lemma date_2024_01_15: "time_Date 2024 1 15 0 0 0 0 = UnixNano 1705276800000000000"
  by code_simp

lemma date_2024_01_31: "time_Date 2024 1 31 0 0 0 0 = UnixNano 1706659200000000000"
  by code_simp

lemma date_2024_02_15: "time_Date 2024 2 15 0 0 0 0 = UnixNano 1707955200000000000"
  by code_simp

lemma date_2024_03_05: "time_Date 2024 3 5 0 0 0 0 = UnixNano 1709596800000000000"
  by code_simp

lemma date_2024_03_10: "time_Date 2024 3 10 0 0 0 0 = UnixNano 1710028800000000000"
  by code_simp

lemma date_2024_03_31: "time_Date 2024 3 31 0 0 0 0 = UnixNano 1711843200000000000"
  by code_simp

lemma next_month_01_15:
  "nextTime TimeShardingByMonth (UnixNano 1705276800000000000) = UnixNano 1707955200000000000"
  by code_simp

lemma next_month_02_15:
  "nextTime TimeShardingByMonth (UnixNano 1707955200000000000) = UnixNano 1710460800000000000"
  by code_simp

text \<open>One month after 31 January is "31 February", which \<open>time_Date\<close> normalises to
  2 March; one month later is 2 April.\<close>

lemma next_month_01_31:
  "nextTime TimeShardingByMonth (UnixNano 1706659200000000000) = time_Date 2024 3 2 0 0 0 0"
  by code_simp

lemma date_2024_03_02: "time_Date 2024 3 2 0 0 0 0 = UnixNano 1709337600000000000"
  by code_simp

lemma next_month_03_02:
  "nextTime TimeShardingByMonth (UnixNano 1709337600000000000) = time_Date 2024 4 2 0 0 0 0"
  by code_simp

lemma date_2024_04_02: "time_Date 2024 4 2 0 0 0 0 = UnixNano 1712016000000000000"
  by code_simp

lemma name_2024_01_15:
  "FormatTimeTableName ''logs'' (UnixNano 1705276800000000000) [StdLongYear, StdZeroMonth]
     = ''logs_202401''"
  by code_simp

lemma name_2024_01_31:
  "FormatTimeTableName ''logs'' (UnixNano 1706659200000000000) [StdLongYear, StdZeroMonth]
     = ''logs_202401''"
  by code_simp

lemma name_2024_02_15:
  "FormatTimeTableName ''logs'' (UnixNano 1707955200000000000) [StdLongYear, StdZeroMonth]
     = ''logs_202402''"
  by code_simp

lemma name_2024_03_02:
  "FormatTimeTableName ''logs'' (UnixNano 1709337600000000000) [StdLongYear, StdZeroMonth]
     = ''logs_202403''"
  by code_simp

lemma name_2024_03_05:
  "FormatTimeTableName ''logs'' (UnixNano 1709596800000000000) [StdLongYear, StdZeroMonth]
     = ''logs_202403''"
  by code_simp

lemmas monthly_logs_defs =
  GetAllTableNamesInRange_def NewTimeShardingStrategy_def NewTimeShardingStrategyWithType_def
  getTimeFormat_def time_Before_def time_Equal_def time_After_def

text \<open>Monthly tables from 15 January to 10 March 2024: the loop visits 15 January and
  15 February, then 15 March, which is past the end.\<close>

lemma monthly_range_jan15_mar10:
  "GetAllTableNamesInRange (NewTimeShardingStrategy ''logs'' ''created_at'' TimeShardingByMonth)
     ''logs'' (time_Date 2024 1 15 0 0 0 0) (time_Date 2024 3 10 0 0 0 0)
   = Some [''logs_202401'', ''logs_202402'']"
  by (simp add: monthly_logs_defs collectTableNames.simps date_2024_01_15 date_2024_03_10
      next_month_01_15 next_month_02_15 name_2024_01_15 name_2024_02_15)

text \<open>Monthly tables from 31 January to 31 March 2024: the loop visits 31 January,
  2 March and then 2 April.\<close>

lemma monthly_range_jan31_mar31:
  "GetAllTableNamesInRange (NewTimeShardingStrategy ''logs'' ''created_at'' TimeShardingByMonth)
     ''logs'' (time_Date 2024 1 31 0 0 0 0) (time_Date 2024 3 31 0 0 0 0)
   = Some [''logs_202401'', ''logs_202403'']"
  by (simp add: monthly_logs_defs collectTableNames.simps date_2024_01_31 date_2024_03_31
      next_month_01_31 next_month_03_02 date_2024_03_02 date_2024_04_02
      name_2024_01_31 name_2024_03_02)

lemma GetAllTableNamesInRange_inverted:
  assumes "time_After startTime endTime"
  shows "GetAllTableNamesInRange s base startTime endTime = Some []"
  using collect_inverted_range [OF assms] by (simp add: GetAllTableNamesInRange_def)

text \<open>
  Claim C1.  The claim: for every instant \<open>t\<close> with \<open>start \<le> t \<le> end\<close> the table name
  of \<open>t\<close> is in the list returned by \<open>GetAllTableNamesInRange\<close>, and the list has no
  duplicates.  The list never has duplicates (\<open>GetAllTableNamesInRange_distinct\<close>), but
  the loop steps from \<open>start\<close> itself, not from the beginning of its unit: the last unit is
  lost when \<open>end\<close> lies earlier in its unit than \<open>start\<close> does, and a month is skipped
  when the day of \<open>start\<close> does not exist in it.  With monthly tables, 5 March lies between
  15 January and 10 March and 15 February between 31 January and 31 March; the table of
  neither is enumerated.
\<close>

theorem GetAllTableNamesInRange_misses_tables:
  "GetAllTableNamesInRange (NewTimeShardingStrategy ''logs'' ''created_at'' TimeShardingByMonth)
     ''logs'' (time_Date 2024 1 15 0 0 0 0) (time_Date 2024 3 10 0 0 0 0)
     = Some [''logs_202401'', ''logs_202402''] \<and>
   \<not> time_After (time_Date 2024 1 15 0 0 0 0) (time_Date 2024 3 5 0 0 0 0) \<and>
   \<not> time_After (time_Date 2024 3 5 0 0 0 0) (time_Date 2024 3 10 0 0 0 0) \<and>
   FormatTimeTableName ''logs'' (time_Date 2024 3 5 0 0 0 0)
     (ts_timeFormat (NewTimeShardingStrategy ''logs'' ''created_at'' TimeShardingByMonth))
     = ''logs_202403'' \<and>
   GetAllTableNamesInRange (NewTimeShardingStrategy ''logs'' ''created_at'' TimeShardingByMonth)
     ''logs'' (time_Date 2024 1 31 0 0 0 0) (time_Date 2024 3 31 0 0 0 0)
     = Some [''logs_202401'', ''logs_202403''] \<and>
   \<not> time_After (time_Date 2024 1 31 0 0 0 0) (time_Date 2024 2 15 0 0 0 0) \<and>
   \<not> time_After (time_Date 2024 2 15 0 0 0 0) (time_Date 2024 3 31 0 0 0 0) \<and>
   FormatTimeTableName ''logs'' (time_Date 2024 2 15 0 0 0 0)
     (ts_timeFormat (NewTimeShardingStrategy ''logs'' ''created_at'' TimeShardingByMonth))
     = ''logs_202402''"
  by (simp add: monthly_range_jan15_mar10 monthly_range_jan31_mar31)
     (simp add: date_2024_01_15 date_2024_01_31 date_2024_02_15 date_2024_03_05
        date_2024_03_10 date_2024_03_31 name_2024_02_15 name_2024_03_05 time_After_def
        NewTimeShardingStrategy_def NewTimeShardingStrategyWithType_def getTimeFormat_def)




subsection \<open>Conversion of sharding values to instants\<close>

lemma convertToTime_auto:
  assumes "ts_fieldType s = TimeFieldTypeAuto"
  shows "convertToTime now tparse s v = Some (autoDetectTime now tparse v)"
  using assms by (subst convertToTime.simps) auto

lemma convertToTime_nil: "convertToTime now tparse s VNil = Some now"
  by (subst convertToTime.simps) simp

lemma convertToTime_declared_time:
  assumes "ts_fieldType s = TimeFieldTypeTime" and "v \<noteq> VNil"
  shows "convertToTime now tparse s v = Some (case asTime v of Some t \<Rightarrow> t | None \<Rightarrow> now)"
  using assms by (subst convertToTime.simps) simp

lemma convertToTime_declared_timestamp:
  assumes "ts_fieldType s = TimeFieldTypeTimestamp \<or> ts_fieldType s = TimeFieldTypeTimestampMs"
  shows "convertToTime now tparse s v = Some now"
  using assms by (subst convertToTime.simps) auto

lemma convertToTime_declared_date_string:
  assumes "ts_fieldType s = TimeFieldTypeDate \<or> ts_fieldType s = TimeFieldTypeDateTime"
  shows "convertToTime now tparse s (VString str) = Some now"
  using assms by (subst convertToTime.simps) auto

lemma convertToTime_declared_date_diverges:
  assumes "ts_fieldType s = TimeFieldTypeDate \<or> ts_fieldType s = TimeFieldTypeDateTime"
    and "v \<noteq> VNil" and "asString v = None"
  shows "convertToTime now tparse s v = None"
proof (rule ccontr)
  assume "convertToTime now tparse s v \<noteq> None"
  then obtain t where run: "convertToTime now tparse s v = Some t" by auto
  have "\<not> ((ts_fieldType s = TimeFieldTypeDate \<or> ts_fieldType s = TimeFieldTypeDateTime)
           \<and> v \<noteq> VNil \<and> asString v = None)"
  proof (rule convertToTime.raw_induct
      [where P = "\<lambda>now tparse s v t.
         \<not> ((ts_fieldType s = TimeFieldTypeDate \<or> ts_fieldType s = TimeFieldTypeDateTime)
           \<and> v \<noteq> VNil \<and> asString v = None)", OF _ run])
    fix conv :: "Time \<Rightarrow> (string \<Rightarrow> string \<Rightarrow> Time option) \<Rightarrow> TimeShardingStrategy \<Rightarrow> val
        \<Rightarrow> Time option"
      and now :: Time and tparse s v and t :: Time
    assume IH: "\<And>now tparse s v t. conv now tparse s v = Some t \<Longrightarrow>
         \<not> ((ts_fieldType s = TimeFieldTypeDate \<or> ts_fieldType s = TimeFieldTypeDateTime)
           \<and> v \<noteq> VNil \<and> asString v = None)"
    assume step: "(if v = VNil then Some now
      else if ts_fieldType s \<noteq> TimeFieldTypeAuto then
        Option.bind
          (if ts_fieldType s = TimeFieldTypeTime then
             Some (CTime (case asTime v of Some t \<Rightarrow> t | None \<Rightarrow> now))
           else if ts_fieldType s = TimeFieldTypeTimestamp then
             Some (CInt64 (convertToTimestamp now tparse v False))
           else if ts_fieldType s = TimeFieldTypeTimestampMs then
             Some (CInt64 (convertToTimestamp now tparse v True))
           else if ts_fieldType s = TimeFieldTypeDate then
             (case asString v of
                Some str \<Rightarrow> Some (CString str)
              | None \<Rightarrow> Option.bind (conv now tparse s v)
                       (\<lambda>t. Some (CString (time_Format t dateLayout))))
           else if ts_fieldType s = TimeFieldTypeDateTime then
             (case asString v of
                Some str \<Rightarrow> Some (CString str)
              | None \<Rightarrow> Option.bind (conv now tparse s v)
                       (\<lambda>t. Some (CString (time_Format t dateTimeLayout))))
           else Option.bind (conv now tparse s v) (\<lambda>t. Some (CTime t)))
          (\<lambda>result. case result of CTime t \<Rightarrow> Some t | _ \<Rightarrow> Some now)
      else Some (autoDetectTime now tparse v)) = Some t"
    show "\<not> ((ts_fieldType s = TimeFieldTypeDate \<or> ts_fieldType s = TimeFieldTypeDateTime)
           \<and> v \<noteq> VNil \<and> asString v = None)"
    proof
      assume c: "(ts_fieldType s = TimeFieldTypeDate \<or> ts_fieldType s = TimeFieldTypeDateTime)
           \<and> v \<noteq> VNil \<and> asString v = None"
      with step obtain t' where "conv now tparse s v = Some t'"
        by (auto simp: bind_eq_Some_conv split: if_splits)
      from IH [OF this] c show False by simp
    qed
  qed
  with assms show False by simp
qed


subsection \<open>Determinism of the table name\<close>

lemma parseStringTime_indep:
  assumes "\<not> stringFallsBack tparse str"
  shows "parseStringTime now1 tparse str = parseStringTime now2 tparse str"
  using assms
  by (auto simp: stringFallsBack_def parseStringTime_def split: option.splits)

lemma reflectTime_indep:
  assumes "\<not> reflectFallsBack tparse v"
  shows "reflectTime now1 tparse v = reflectTime now2 tparse v"
  using assms by (cases v) (simp_all add: parseStringTime_indep)

lemma autoDetectTime_indep:
  assumes "\<not> fallsBack tparse v"
  shows "autoDetectTime now1 tparse v = autoDetectTime now2 tparse v"
proof (cases v)
  case (VPtr p)
  then show ?thesis using assms by (cases p) (simp_all add: parseStringTime_indep)
next
  case (VPtrIface p)
  then show ?thesis using assms by (cases p) (simp_all add: parseStringTime_indep)
qed (use assms in \<open>simp_all add: parseStringTime_indep\<close>)

lemma autoDetectTime_fallsBack:
  assumes "fallsBack tparse v"
  shows "autoDetectTime now tparse v = now"
proof (cases v)
  case (VPtr p)
  then show ?thesis using assms
    by (cases p) (auto simp: stringFallsBack_def parseStringTime_def)
next
  case (VPtrIface p)
  then show ?thesis using assms
    by (cases p) (auto simp: stringFallsBack_def parseStringTime_def)
qed (use assms in \<open>auto simp: stringFallsBack_def parseStringTime_def\<close>)

lemma TimeGetTableName_clockFree:
  assumes "clockFree tparse (TimeStrategy s) v"
  shows "TimeGetTableName now1 tparse s base v = TimeGetTableName now2 tparse s base v"
proof (cases "ts_fieldType s = TimeFieldTypeAuto")
  case True
  then show ?thesis using assms autoDetectTime_indep [of tparse v now1 now2]
    by (simp add: TimeGetTableName_def convertToTime_auto)
next
  case False
  then have ft: "ts_fieldType s = TimeFieldTypeTime" and t: "asTime v \<noteq> None"
    using assms by (auto split: if_splits)
  then have "v \<noteq> VNil" by auto
  then show ?thesis using ft t
    by (auto simp: TimeGetTableName_def convertToTime_declared_time)
qed

lemma TimeGetTableName_nil:
  "TimeGetTableName now tparse s base VNil
     = Some (FormatTimeTableName base now (ts_timeFormat s))"
  by (simp add: TimeGetTableName_def convertToTime_nil)

lemma TimeGetTableName_followsClock:
  assumes "followsClock tparse s v"
  shows "TimeGetTableName now tparse s base v
       = Some (FormatTimeTableName base now (ts_timeFormat s))"
proof (cases "v = VNil")
  case True
  then show ?thesis by (simp add: TimeGetTableName_nil)
next
  case False
  then consider "ts_fieldType s = TimeFieldTypeAuto" "fallsBack tparse v"
    | "ts_fieldType s = TimeFieldTypeTime" "asTime v = None"
    using assms by (auto simp: followsClock_def)
  then show ?thesis
  proof cases
    case 1
    then show ?thesis
      by (simp add: TimeGetTableName_def convertToTime_auto autoDetectTime_fallsBack)
  next
    case 2
    then show ?thesis using False
      by (simp add: TimeGetTableName_def convertToTime_declared_time)
  qed
qed

text \<open>In the two modes in which a value can convert at all, every value is of one kind
  or of the other.\<close>

lemma clockFree_or_followsClock:
  assumes "ts_fieldType s = TimeFieldTypeAuto \<or> ts_fieldType s = TimeFieldTypeTime"
  shows "clockFree tparse (TimeStrategy s) v \<noteq> followsClock tparse s v"
proof (cases "v = VNil")
  case True
  then show ?thesis by (simp add: followsClock_def)
next
  case False
  then show ?thesis using assms by (auto simp: followsClock_def)
qed

text \<open>
  Claim C2, as amended.  The claim: for every strategy instance and every key value, two
  invocations of \<open>GetTableName\<close> return the same name whenever they are made.  The clock
  is the only input of \<open>GetTableName\<close> besides the strategy and the value, so the claim
  reads: the result does not depend on \<open>now\<close>.  This holds for the Hash, Range, Modulo
  and Custom strategies, and for a Time strategy on every value that converts without the
  fallback to the current instant (\<open>clockFree\<close>).  On a nil value, on a value for which
  auto-detection falls back, and on a value that is no \<^verbatim>\<open>time.Time\<close> when one is declared
  (\<open>followsClock\<close>), a Time strategy returns the name of the table of the current instant.
\<close>

theorem GetTableName_deterministic_unless_clock:
  "(clockFree tparse st v \<longrightarrow>
      GetTableName now1 fmtv tparse st base v = GetTableName now2 fmtv tparse st base v) \<and>
   (followsClock tparse s w \<longrightarrow>
      GetTableName now fmtv tparse (TimeStrategy s) base w
        = Returns (FormatTimeTableName base now (ts_timeFormat s)))"
proof (intro conjI impI)
  assume c: "clockFree tparse st v"
  show "GetTableName now1 fmtv tparse st base v = GetTableName now2 fmtv tparse st base v"
  proof (cases st)
    case (TimeStrategy s')
    then show ?thesis using c TimeGetTableName_clockFree [of tparse s' v now1 base now2]
      by simp
  qed simp_all
next
  assume "followsClock tparse s w"
  then show "GetTableName now fmtv tparse (TimeStrategy s) base w
      = Returns (FormatTimeTableName base now (ts_timeFormat s))"
    by (simp add: TimeGetTableName_followsClock ofOption_def)
qed

lemma sint64_20e9: "sint (20000000000 :: 64 word) = 20000000000"
  by simp

lemma sint64_m20e9: "sint (- 20000000000 :: 64 word) = - 20000000000"
  by simp

theorem GetTableName_deterministic_unless_clock_witness:
  "clockFree (\<lambda>layout str. None)
     (TimeStrategy (NewTimeShardingStrategy ''logs'' ''created_at'' TimeShardingByMonth))
     (VNamedInt ''ID'' 1705276800) \<and>
   GetTableName (UnixNano 0) (\<lambda>v. []) (\<lambda>layout str. None)
     (TimeStrategy (NewTimeShardingStrategy ''logs'' ''created_at'' TimeShardingByMonth))
     ''logs'' (VNamedInt ''ID'' 1705276800)
   = GetTableName (UnixNano 1709596800000000000) (\<lambda>v. []) (\<lambda>layout str. None)
     (TimeStrategy (NewTimeShardingStrategy ''logs'' ''created_at'' TimeShardingByMonth))
     ''logs'' (VNamedInt ''ID'' 1705276800) \<and>
   followsClock (\<lambda>layout str. None)
     (NewTimeShardingStrategy ''logs'' ''created_at'' TimeShardingByMonth)
     (VOther ''3.5'') \<and>
   GetTableName (UnixNano 1709596800000000000) (\<lambda>v. []) (\<lambda>layout str. None)
     (TimeStrategy (NewTimeShardingStrategy ''logs'' ''created_at'' TimeShardingByMonth))
     ''logs'' (VOther ''3.5'')
   = Returns ''logs_202403''"
proof -
  have c: "clockFree (\<lambda>layout str. None)
     (TimeStrategy (NewTimeShardingStrategy ''logs'' ''created_at'' TimeShardingByMonth))
     (VNamedInt ''ID'' 1705276800)"
    by (simp add: NewTimeShardingStrategy_def NewTimeShardingStrategyWithType_def)
  have f: "followsClock (\<lambda>layout str. None)
     (NewTimeShardingStrategy ''logs'' ''created_at'' TimeShardingByMonth)
     (VOther ''3.5'')"
    by (simp add: followsClock_def NewTimeShardingStrategy_def
        NewTimeShardingStrategyWithType_def)
  have n: "FormatTimeTableName ''logs'' (UnixNano 1709596800000000000)
      (ts_timeFormat (NewTimeShardingStrategy ''logs'' ''created_at'' TimeShardingByMonth))
    = ''logs_202403''"
    by (simp add: NewTimeShardingStrategy_def NewTimeShardingStrategyWithType_def
        getTimeFormat_def name_2024_03_05)
  show ?thesis
    using c f n GetTableName_deterministic_unless_clock
      [of "\<lambda>layout str. None"
          "TimeStrategy (NewTimeShardingStrategy ''logs'' ''created_at'' TimeShardingByMonth)"
          "VNamedInt ''ID'' 1705276800" "UnixNano 0" "\<lambda>v. []" "''logs''"
          "UnixNano 1709596800000000000"
          "NewTimeShardingStrategy ''logs'' ''created_at'' TimeShardingByMonth"
          "VOther ''3.5''" "UnixNano 1709596800000000000"]
    by simp
qed

text \<open>A key of a defined integer type, \<^verbatim>\<open>type ID int64\<close>, reaches the default branch and
  is read as an epoch: 1705276800 seconds are in January 2024, whatever the clock shows.\<close>

lemma GetTableName_named_integer_key:
  "GetTableName now fmtv tparse
     (TimeStrategy (NewTimeShardingStrategy ''logs'' ''created_at'' TimeShardingByMonth))
     ''logs'' (VNamedInt ''ID'' 1705276800)
   = Returns ''logs_202401''"
  by (simp add: TimeGetTableName_def convertToTime_auto ofOption_def timeFromInt64_def
      time_Unix_def NewTimeShardingStrategy_def NewTimeShardingStrategyWithType_def
      getTimeFormat_def name_2024_01_15)

text \<open>
  Claim C2 as stated fails: a nil key makes the Time strategy use the current instant, so
  the same strategy and the same value give the January table at one moment and the March
  table at another.
\<close>

theorem GetTableName_nil_follows_clock:
  "GetTableName (UnixNano 1705276800000000000) (\<lambda>v. []) (\<lambda>layout str. None)
     (TimeStrategy (NewTimeShardingStrategy ''logs'' ''created_at'' TimeShardingByMonth))
     ''logs'' VNil = Returns ''logs_202401'' \<and>
   GetTableName (UnixNano 1709596800000000000) (\<lambda>v. []) (\<lambda>layout str. None)
     (TimeStrategy (NewTimeShardingStrategy ''logs'' ''created_at'' TimeShardingByMonth))
     ''logs'' VNil = Returns ''logs_202403'' \<and>
   GetTableName (UnixNano 1705276800000000000) (\<lambda>v. []) (\<lambda>layout str. None)
     (TimeStrategy (NewTimeShardingStrategy ''logs'' ''created_at'' TimeShardingByMonth))
     ''logs'' VNil
   \<noteq> GetTableName (UnixNano 1709596800000000000) (\<lambda>v. []) (\<lambda>layout str. None)
     (TimeStrategy (NewTimeShardingStrategy ''logs'' ''created_at'' TimeShardingByMonth))
     ''logs'' VNil"
  by (simp add: TimeGetTableName_nil ofOption_def NewTimeShardingStrategy_def
      NewTimeShardingStrategyWithType_def getTimeFormat_def name_2024_01_15 name_2024_03_05)


subsection \<open>The seconds-or-milliseconds heuristic and the swap of a range\<close>

lemma spec_epochTime_small: "\<bar>v\<bar> \<le> 10000000000 \<Longrightarrow> spec_epochTime v = time_Unix v 0"
  by (simp add: spec_epochTime_def)

lemma spec_epochTime_sint32: "spec_epochTime (sint (v :: 32 word)) = time_Unix (sint v) 0"
  using sint_ge [of v] sint_lt [of v] by (intro spec_epochTime_small) simp

lemma spec_epochTime_uint32: "spec_epochTime (uint (v :: 32 word)) = time_Unix (uint v) 0"
  using uint_bounded [of v] by (intro spec_epochTime_small) simp

lemma timeFromUint64_spec: "timeFromUint64 v = spec_epochTime (uint v)"
  by (simp add: timeFromUint64_def spec_epochTime_def)

lemma timeFromInt64_spec:
  "timeFromInt64 v =
     (if sint v < - 10000000000 then time_Unix (sint v) 0 else spec_epochTime (sint v))"
  by (auto simp: timeFromInt64_def spec_epochTime_def)

text \<open>
  Claim C6, as amended.  In auto-detect mode the threshold test \<open>v > 10\<^sup>1\<^sup>0\<close> is applied
  to \<^verbatim>\<open>int64\<close> and \<^verbatim>\<open>uint64\<close> values only, and it is a signed comparison.  So the reading
  of the specification (\<open>spec_epochTime\<close>) is what the code computes for \<^verbatim>\<open>uint64\<close>,
  \<^verbatim>\<open>int32\<close> and \<^verbatim>\<open>uint32\<close> values, and for \<^verbatim>\<open>int64\<close> values from \<open>-10\<^sup>1\<^sup>0\<close> upwards;
  an \<^verbatim>\<open>int64\<close> below \<open>-10\<^sup>1\<^sup>0\<close> is read as seconds, and an \<^verbatim>\<open>int\<close> or \<^verbatim>\<open>uint\<close> value
  is always read as seconds (a \<^verbatim>\<open>uint\<close> after conversion to \<^verbatim>\<open>int64\<close>).
\<close>

theorem convertToTime_integer_heuristic:
  assumes "ts_fieldType s = TimeFieldTypeAuto"
  shows "convertToTime now tparse s (VInt64 v64)
           = Some (if sint v64 < - 10000000000 then time_Unix (sint v64) 0
                   else spec_epochTime (sint v64)) \<and>
         convertToTime now tparse s (VUint64 u64) = Some (spec_epochTime (uint u64)) \<and>
         convertToTime now tparse s (VInt32 v32) = Some (spec_epochTime (sint v32)) \<and>
         convertToTime now tparse s (VUint32 u32) = Some (spec_epochTime (uint u32)) \<and>
         convertToTime now tparse s (VInt v) = Some (time_Unix (sint v) 0) \<and>
         convertToTime now tparse s (VUint u) = Some (time_Unix (sint u) 0)"
  using assms
  by (simp add: convertToTime_auto timeFromUint64_spec timeFromInt64_spec
      spec_epochTime_sint32 spec_epochTime_uint32)

theorem convertToTime_integer_heuristic_witness:
  "ts_fieldType (NewTimeShardingStrategy ''logs'' ''created_at'' TimeShardingByDay)
     = TimeFieldTypeAuto \<and>
   convertToTime (UnixNano 0) (\<lambda>layout str. None)
     (NewTimeShardingStrategy ''logs'' ''created_at'' TimeShardingByDay) (VInt64 1705276800123)
     = Some (UnixNano 1705276800123000000) \<and>
   convertToTime (UnixNano 0) (\<lambda>layout str. None)
     (NewTimeShardingStrategy ''logs'' ''created_at'' TimeShardingByDay) (VInt64 1705276800)
     = Some (UnixNano 1705276800000000000)"
proof -
  have a: "ts_fieldType (NewTimeShardingStrategy ''logs'' ''created_at'' TimeShardingByDay)
     = TimeFieldTypeAuto"
    by (simp add: NewTimeShardingStrategy_def NewTimeShardingStrategyWithType_def)
  show ?thesis
    using a convertToTime_integer_heuristic [OF a, of "UnixNano 0" "\<lambda>layout str. None"
        "1705276800123" 0 0 0 0 0]
      convertToTime_integer_heuristic [OF a, of "UnixNano 0" "\<lambda>layout str. None"
        "1705276800" 0 0 0 0 0]
    by (simp add: spec_epochTime_def time_Unix_def)
qed

text \<open>
  Claim C6 as stated fails: the \<^verbatim>\<open>int\<close> value \<open>2 \<cdot> 10\<^sup>1\<^sup>0\<close> and the \<^verbatim>\<open>int64\<close> value
  \<open>-2 \<cdot> 10\<^sup>1\<^sup>0\<close> have a magnitude above the threshold, and both are read as seconds.
\<close>

theorem convertToTime_int_beyond_threshold:
  "convertToTime (UnixNano 0) (\<lambda>layout str. None)
     (NewTimeShardingStrategy ''logs'' ''created_at'' TimeShardingByDay) (VInt 20000000000)
     = Some (time_Unix 20000000000 0) \<and>
   spec_epochTime 20000000000 = time_Unix 20000000 0 \<and>
   time_Unix 20000000000 0 \<noteq> time_Unix 20000000 0 \<and>
   convertToTime (UnixNano 0) (\<lambda>layout str. None)
     (NewTimeShardingStrategy ''logs'' ''created_at'' TimeShardingByDay) (VInt64 (- 20000000000))
     = Some (time_Unix (- 20000000000) 0) \<and>
   spec_epochTime (- 20000000000) = time_Unix (- 20000000) 0 \<and>
   time_Unix (- 20000000000) 0 \<noteq> time_Unix (- 20000000) 0"
  by (simp add: convertToTime_auto NewTimeShardingStrategy_def
      NewTimeShardingStrategyWithType_def timeFromInt64_def spec_epochTime_def time_Unix_def)

lemma ParseTimeRange_ordered:
  assumes "convertToTime now1 tparse s startValue = Some a"
    and "convertToTime now2 tparse s endValue = Some b"
  shows "ParseTimeRange now1 now2 tparse s startValue endValue
           = Some (if time_After a b then (b, a) else (a, b))"
  using assms by (simp add: ParseTimeRange_def)

text \<open>
  Claim C8, as amended.  \<open>GetAllTableNamesInRange\<close> does not swap: for a start after the
  end its loop body never runs and the list is empty.  The swap is made by
  \<open>GetAllTableNamesInRangeWithValues\<close> and by \<open>ParseTimeRange\<close>, after the two values
  have been converted: both work on the earlier and the later of the two instants.
\<close>

theorem range_swapped_only_with_values:
  "(time_After startTime endTime \<longrightarrow>
      GetAllTableNamesInRange s base startTime endTime = Some []) \<and>
   (convertToTime now1 tparse s startValue = Some a \<and>
    convertToTime now2 tparse s endValue = Some b \<longrightarrow>
      GetAllTableNamesInRangeWithValues now1 now2 tparse s base startValue endValue
        = (if time_After a b then GetAllTableNamesInRange s base b a
           else GetAllTableNamesInRange s base a b) \<and>
      ParseTimeRange now1 now2 tparse s startValue endValue
        = Some (if time_After a b then (b, a) else (a, b)))"
  by (simp add: collect_inverted_range GetAllTableNamesInRange_def
      GetAllTableNamesInRangeWithValues_def ParseTimeRange_def)


theorem range_swapped_only_with_values_witness:
  "time_After (time_Date 2024 3 10 0 0 0 0) (time_Date 2024 1 15 0 0 0 0) \<and>
   GetAllTableNamesInRange
     (NewTimeShardingStrategy ''logs'' ''created_at'' TimeShardingByMonth) ''logs''
     (time_Date 2024 3 10 0 0 0 0) (time_Date 2024 1 15 0 0 0 0) = Some [] \<and>
   convertToTime (UnixNano 0) (\<lambda>layout str. None)
     (NewTimeShardingStrategy ''logs'' ''created_at'' TimeShardingByMonth)
     (VTime (time_Date 2024 3 10 0 0 0 0)) = Some (time_Date 2024 3 10 0 0 0 0) \<and>
   convertToTime (UnixNano 1) (\<lambda>layout str. None)
     (NewTimeShardingStrategy ''logs'' ''created_at'' TimeShardingByMonth)
     (VTime (time_Date 2024 1 15 0 0 0 0)) = Some (time_Date 2024 1 15 0 0 0 0) \<and>
   GetAllTableNamesInRangeWithValues (UnixNano 0) (UnixNano 1) (\<lambda>layout str. None)
     (NewTimeShardingStrategy ''logs'' ''created_at'' TimeShardingByMonth) ''logs''
     (VTime (time_Date 2024 3 10 0 0 0 0)) (VTime (time_Date 2024 1 15 0 0 0 0))
     = Some [''logs_202401'', ''logs_202402'']"
proof -
  let ?s = "NewTimeShardingStrategy ''logs'' ''created_at'' TimeShardingByMonth"
  have after: "time_After (time_Date 2024 3 10 0 0 0 0) (time_Date 2024 1 15 0 0 0 0)"
    by (simp add: date_2024_01_15 date_2024_03_10 time_After_def)
  have auto: "ts_fieldType ?s = TimeFieldTypeAuto"
    by (simp add: NewTimeShardingStrategy_def NewTimeShardingStrategyWithType_def)
  have c1: "convertToTime (UnixNano 0) (\<lambda>layout str. None) ?s
      (VTime (time_Date 2024 3 10 0 0 0 0)) = Some (time_Date 2024 3 10 0 0 0 0)"
    by (simp add: convertToTime_auto [OF auto])
  have c2: "convertToTime (UnixNano 1) (\<lambda>layout str. None) ?s
      (VTime (time_Date 2024 1 15 0 0 0 0)) = Some (time_Date 2024 1 15 0 0 0 0)"
    by (simp add: convertToTime_auto [OF auto])
  show ?thesis
    using after c1 c2 monthly_range_jan15_mar10
      range_swapped_only_with_values [of "time_Date 2024 3 10 0 0 0 0"
        "time_Date 2024 1 15 0 0 0 0" ?s "''logs''" "UnixNano 0" "\<lambda>layout str. None"
        "VTime (time_Date 2024 3 10 0 0 0 0)" "time_Date 2024 3 10 0 0 0 0" "UnixNano 1"
        "VTime (time_Date 2024 1 15 0 0 0 0)" "time_Date 2024 1 15 0 0 0 0"]
    by simp
qed

text \<open>
  Claim C8 as stated fails for \<open>GetAllTableNamesInRange\<close>: from 10 March back to
  15 January it returns the empty list, not the two tables of the range from 15 January
  to 10 March.
\<close>

theorem GetAllTableNamesInRange_inverted_is_empty:
  "GetAllTableNamesInRange
     (NewTimeShardingStrategy ''logs'' ''created_at'' TimeShardingByMonth) ''logs''
     (time_Date 2024 3 10 0 0 0 0) (time_Date 2024 1 15 0 0 0 0) = Some [] \<and>
   GetAllTableNamesInRange
     (NewTimeShardingStrategy ''logs'' ''created_at'' TimeShardingByMonth) ''logs''
     (time_Date 2024 1 15 0 0 0 0) (time_Date 2024 3 10 0 0 0 0)
     = Some [''logs_202401'', ''logs_202402'']"
  using monthly_range_jan15_mar10
  by (simp add: GetAllTableNamesInRange_inverted date_2024_01_15 date_2024_03_10
      time_After_def)

subsection \<open>Deduplication\<close>

lemma groupKeyParts_Some_iff:
  "(groupKeyParts fmtv result flds \<noteq> None) = list_all (usable fmtv result) flds"
  by (induction flds)
     (auto simp: keyPart_def usable_def Let_def split: option.splits)

lemma keyPart_usable:
  "usable fmtv result field \<Longrightarrow> keyPart fmtv result field = Some (fieldPair fmtv result field)"
  by (auto simp: keyPart_def usable_def fieldPair_def Let_def split: option.splits)

lemma keyPart_not_usable:
  "\<not> usable fmtv result field \<Longrightarrow> keyPart fmtv result field = None"
  by (auto simp: keyPart_def usable_def Let_def split: option.splits)

lemma groupKeyParts_usable:
  "list_all (usable fmtv result) flds \<Longrightarrow>
     groupKeyParts fmtv result flds = Some (map (fieldPair fmtv result) flds)"
  by (induction flds) (simp_all add: keyPart_usable)

lemma groupKeyParts_not_usable:
  "\<not> list_all (usable fmtv result) flds \<Longrightarrow> groupKeyParts fmtv result flds = None"
  using groupKeyParts_Some_iff [of fmtv result flds] by simp

lemma map_filter_keyPart:
  "List.map_filter (keyPart fmtv result) order
     = map (fieldPair fmtv result) (filter (usable fmtv result) order)"
  by (induction order)
     (auto simp: List.map_filter_simps keyPart_usable keyPart_not_usable)

lemma allFieldsKey_eq:
  "allFieldsKey fmtv order result
     = Join (map (fieldPair fmtv result) (filter (usable fmtv result) order)) ''|''"
  by (simp add: allFieldsKey_def map_filter_keyPart Let_def)

lemma generateResultKey_eq:
  "generateResultKey fmtv order result keyFieldGroups =
     (case find (usableGroup fmtv result) keyFieldGroups of
        Some flds \<Rightarrow> Join (map (fieldPair fmtv result) flds) ''|''
      | None \<Rightarrow> Join (map (fieldPair fmtv result) (filter (usable fmtv result) order)) ''|'')"
proof (induction keyFieldGroups)
  case Nil
  then show ?case by (simp add: allFieldsKey_eq)
next
  case (Cons flds groups)
  show ?case
  proof (cases "list_all (usable fmtv result) flds")
    case True
    then show ?thesis using Cons
      by (cases "flds = []") (simp_all add: groupKeyParts_usable usableGroup_def)
  next
    case False
    then show ?thesis using Cons
      by (simp add: groupKeyParts_not_usable usableGroup_def)
  qed
qed

text \<open>The loop keeps exactly the records at the positions whose key is new; \<open>i\<close> is the
  position of the first record of the rest.\<close>

lemma dedupLoop_eq:
  "dedupLoop fmtv orders groups seen acc i results =
     acc @ map (\<lambda>k. results ! k)
       (filter (\<lambda>k. \<not> seen (generateResultKey fmtv (orders (i + k)) (results ! k) groups) \<and>
                     (\<forall>j < k. generateResultKey fmtv (orders (i + j)) (results ! j) groups
                              \<noteq> generateResultKey fmtv (orders (i + k)) (results ! k) groups))
               [0 ..< length results])"
proof (induction results arbitrary: seen acc i)
  case Nil
  then show ?case by simp
next
  case (Cons r rs)
  let ?key = "\<lambda>k. generateResultKey fmtv (orders (i + k)) ((r # rs) ! k) groups"
  have shift: "[0 ..< length (r # rs)] = 0 # map Suc [0 ..< length rs]"
    by (simp add: upt_conv_Cons map_Suc_upt del: upt_Suc)
  have all_Suc: "\<And>k P. (\<forall>j < Suc k. P j) = (P 0 \<and> (\<forall>j < k. P (Suc j)))"
    by (metis less_Suc_eq_0_disj)
  show ?case
  proof (cases "seen (?key 0)")
    case True
    have "dedupLoop fmtv orders groups seen acc i (r # rs)
        = dedupLoop fmtv orders groups seen acc (Suc i) rs"
      using True by (simp add: Let_def)
    also have "\<dots> = acc @ map (\<lambda>k. rs ! k)
       (filter (\<lambda>k. \<not> seen (generateResultKey fmtv (orders (Suc i + k)) (rs ! k) groups) \<and>
                     (\<forall>j < k. generateResultKey fmtv (orders (Suc i + j)) (rs ! j) groups
                              \<noteq> generateResultKey fmtv (orders (Suc i + k)) (rs ! k) groups))
               [0 ..< length rs])"
      by (rule Cons.IH)
    also have "\<dots> = acc @ map (\<lambda>k. (r # rs) ! k)
       (filter (\<lambda>k. \<not> seen (?key k) \<and> (\<forall>j < k. ?key j \<noteq> ?key k)) [0 ..< length (r # rs)])"
    proof -
      have "filter (\<lambda>k. \<not> seen (generateResultKey fmtv (orders (Suc i + k)) (rs ! k) groups) \<and>
                     (\<forall>j < k. generateResultKey fmtv (orders (Suc i + j)) (rs ! j) groups
                              \<noteq> generateResultKey fmtv (orders (Suc i + k)) (rs ! k) groups))
               [0 ..< length rs]
          = filter (\<lambda>k. \<not> seen (?key (Suc k)) \<and> (\<forall>j < Suc k. ?key j \<noteq> ?key (Suc k)))
               [0 ..< length rs]"
        using True by (intro filter_cong refl) (auto simp: all_Suc)
      then show ?thesis
        unfolding shift using True by (simp add: filter_map o_def)
    qed
    finally show ?thesis .
  next
    case False
    have "dedupLoop fmtv orders groups seen acc i (r # rs)
        = dedupLoop fmtv orders groups (seen(?key 0 := True)) (acc @ [r]) (Suc i) rs"
      using False by (simp add: Let_def)
    also have "\<dots> = (acc @ [r]) @ map (\<lambda>k. rs ! k)
       (filter (\<lambda>k. \<not> (seen(?key 0 := True))
                        (generateResultKey fmtv (orders (Suc i + k)) (rs ! k) groups) \<and>
                     (\<forall>j < k. generateResultKey fmtv (orders (Suc i + j)) (rs ! j) groups
                              \<noteq> generateResultKey fmtv (orders (Suc i + k)) (rs ! k) groups))
               [0 ..< length rs])"
      by (rule Cons.IH)
    also have "\<dots> = acc @ map (\<lambda>k. (r # rs) ! k)
       (filter (\<lambda>k. \<not> seen (?key k) \<and> (\<forall>j < k. ?key j \<noteq> ?key k)) [0 ..< length (r # rs)])"
    proof -
      have "filter (\<lambda>k. \<not> (seen(?key 0 := True))
                        (generateResultKey fmtv (orders (Suc i + k)) (rs ! k) groups) \<and>
                     (\<forall>j < k. generateResultKey fmtv (orders (Suc i + j)) (rs ! j) groups
                              \<noteq> generateResultKey fmtv (orders (Suc i + k)) (rs ! k) groups))
               [0 ..< length rs]
          = filter (\<lambda>k. \<not> seen (?key (Suc k)) \<and> (\<forall>j < Suc k. ?key j \<noteq> ?key (Suc k)))
               [0 ..< length rs]"
        by (intro filter_cong refl) (auto simp: all_Suc)
      then show ?thesis
        unfolding shift using False by (simp add: filter_map o_def)
    qed
    finally show ?thesis .
  qed
qed

lemma deduplicateResults_eq:
  "deduplicateResults fmtv orders results groups =
     map (\<lambda>i. results ! i)
       (filter (firstSeen fmtv orders groups results) [0 ..< length results])"
proof -
  have "firstSeen fmtv orders groups results
      = (\<lambda>k. \<forall>j < k. generateResultKey fmtv (orders j) (results ! j) groups
                      \<noteq> generateResultKey fmtv (orders k) (results ! k) groups)"
    by (simp add: fun_eq_iff firstSeen_def keyAt_def)
  then show ?thesis
    by (simp add: deduplicateResults_def dedupLoop_eq)
qed


lemma nth_filter_subseq: "subseq (map (\<lambda>i. xs ! i) (filter P [0 ..< length xs])) xs"
proof -
  have "subseq (map (\<lambda>i. xs ! i) (filter P [0 ..< length xs]))
          (map (\<lambda>i. xs ! i) [0 ..< length xs])"
    by (intro subseq_map subseq_filter_left)
  then show ?thesis by (simp add: map_nth)
qed

lemma deduplicateResults_subseq:
  "subseq (deduplicateResults fmtv orders results groups) results"
  unfolding deduplicateResults_eq by (rule nth_filter_subseq)

lemma dedupLoop_orders_irrelevant:
  assumes "\<And>k. k < length rs \<Longrightarrow>
      generateResultKey fmtv (orders (i + k)) (rs ! k) groups
        = generateResultKey fmtv (orders' (i' + k)) (rs ! k) groups"
  shows "dedupLoop fmtv orders groups seen acc i rs
       = dedupLoop fmtv orders' groups seen acc i' rs"
  using assms
proof (induction rs arbitrary: seen acc i i')
  case Nil
  then show ?case by simp
next
  case (Cons r rs)
  have k: "generateResultKey fmtv (orders i) r groups
         = generateResultKey fmtv (orders' i') r groups"
    using Cons.prems [of 0] by simp
  have f: "generateResultKey fmtv (orders (Suc i + k)) (rs ! k) groups
         = generateResultKey fmtv (orders' (Suc i' + k)) (rs ! k) groups"
    if "k < length rs" for k
    using Cons.prems [of "Suc k"] that by simp
  have IH: "\<And>seen acc. dedupLoop fmtv orders groups seen acc (Suc i) rs
       = dedupLoop fmtv orders' groups seen acc (Suc i') rs"
    by (rule Cons.IH [OF f])
  show ?case
    by (simp only: dedupLoop.simps Let_def k IH)
qed

lemma dedupLoop_append_only:
  "\<exists>ys. dedupLoop fmtv orders groups seen acc i rs = acc @ ys \<and> set ys \<subseteq> set rs"
proof (induction rs arbitrary: seen acc i)
  case Nil
  then show ?case by simp
next
  case (Cons r rs)
  let ?key = "generateResultKey fmtv (orders i) r groups"
  show ?case
  proof (cases "seen ?key")
    case True
    then show ?thesis using Cons.IH [of seen acc "Suc i"] by (auto simp: Let_def)
  next
    case False
    obtain ys where "dedupLoop fmtv orders groups (seen(?key := True)) (acc @ [r]) (Suc i) rs
        = (acc @ [r]) @ ys" "set ys \<subseteq> set rs"
      using Cons.IH [of "seen(?key := True)" "acc @ [r]" "Suc i"] by blast
    then show ?thesis using False
      by (intro exI [of _ "r # ys"]) (auto simp: Let_def)
  qed
qed

lemma dedupLoop_distinct_keys:
  assumes keys: "\<And>k. k < length rs \<Longrightarrow>
      generateResultKey fmtv (orders (i + k)) (rs ! k) groups = K (rs ! k)"
    and "\<And>x. seen x = (x \<in> K ` set acc)"
    and "distinct (map K acc)"
  shows "distinct (map K (dedupLoop fmtv orders groups seen acc i rs))"
  using assms
proof (induction rs arbitrary: seen acc i)
  case Nil
  then show ?case by simp
next
  case (Cons r rs)
  have kr: "generateResultKey fmtv (orders i) r groups = K r"
    using Cons.prems(1) [of 0] by simp
  have ks: "generateResultKey fmtv (orders (Suc i + k)) (rs ! k) groups = K (rs ! k)"
    if "k < length rs" for k
    using Cons.prems(1) [of "Suc k"] that by simp
  show ?case
  proof (cases "seen (K r)")
    case True
    then have "dedupLoop fmtv orders groups seen acc i (r # rs)
        = dedupLoop fmtv orders groups seen acc (Suc i) rs"
      by (simp add: Let_def kr)
    then show ?thesis
      using Cons.IH [of "Suc i" seen acc, OF ks Cons.prems(2) Cons.prems(3)] by (simp only:)
  next
    case False
    have a: "\<And>x. (seen(K r := True)) x = (x \<in> K ` set (acc @ [r]))"
      using Cons.prems(2) by auto
    have b: "distinct (map K (acc @ [r]))"
      using Cons.prems(2,3) False by auto
    have "dedupLoop fmtv orders groups seen acc i (r # rs)
        = dedupLoop fmtv orders groups (seen(K r := True)) (acc @ [r]) (Suc i) rs"
      using False by (simp add: Let_def kr)
    then show ?thesis
      using Cons.IH [of "Suc i" "seen(K r := True)" "acc @ [r]", OF ks a b]
      by (simp only:)
  qed
qed

lemma dedupLoop_keeps_distinct:
  assumes keys: "\<And>k. k < length rs \<Longrightarrow>
      generateResultKey fmtv (orders (i + k)) (rs ! k) groups = K (rs ! k)"
    and "distinct (map K rs)"
    and "\<And>r. r \<in> set rs \<Longrightarrow> \<not> seen (K r)"
  shows "dedupLoop fmtv orders groups seen acc i rs = acc @ rs"
  using assms
proof (induction rs arbitrary: seen acc i)
  case Nil
  then show ?case by simp
next
  case (Cons r rs)
  have kr: "generateResultKey fmtv (orders i) r groups = K r"
    using Cons.prems(1) [of 0] by simp
  have ks: "generateResultKey fmtv (orders (Suc i + k)) (rs ! k) groups = K (rs ! k)"
    if "k < length rs" for k
    using Cons.prems(1) [of "Suc k"] that by simp
  have ns: "\<not> seen (K r)" using Cons.prems(3) by simp
  have d: "distinct (map K rs)" using Cons.prems(2) by simp
  have n: "\<not> (seen(K r := True)) (K x)" if x: "x \<in> set rs" for x
  proof -
    have "K x \<in> K ` set rs" using x by (rule imageI)
    moreover have "K r \<notin> K ` set rs" using Cons.prems(2) by simp
    ultimately have "K x \<noteq> K r" by metis
    moreover have "\<not> seen (K x)" using Cons.prems(3) x by simp
    ultimately show ?thesis by simp
  qed
  have "dedupLoop fmtv orders groups seen acc i (r # rs)
      = dedupLoop fmtv orders groups (seen(K r := True)) (acc @ [r]) (Suc i) rs"
    using ns by (simp add: Let_def kr)
  also have "\<dots> = (acc @ [r]) @ rs"
    by (rule Cons.IH [of "Suc i" "seen(K r := True)" "acc @ [r]", OF ks d n])
  finally show ?case by simp
qed

text \<open>Under \<open>orderFree\<close> the key of a record is the same at every valid order, so two runs
  that meet valid orders keep the same records, and a second pass changes nothing.\<close>

lemma orderFree_keys:
  assumes "orderFree fmtv groups results"
    and "validOrders orders results" and "validOrders orders' results"
    and "k < length results"
  shows "generateResultKey fmtv (orders k) (results ! k) groups
       = generateResultKey fmtv (orders' k) (results ! k) groups"
  using assms by (simp add: orderFree_def validOrders_def)

lemma deduplicateResults_orderFree:
  assumes "orderFree fmtv groups results"
    and "validOrders orders results" and "validOrders orders' results"
  shows "deduplicateResults fmtv orders results groups
       = deduplicateResults fmtv orders' results groups"
proof -
  have "dedupLoop fmtv orders groups (\<lambda>_. False) [] 0 results
      = dedupLoop fmtv orders' groups (\<lambda>_. False) [] 0 results"
    by (rule dedupLoop_orders_irrelevant) (simp add: orderFree_keys [OF assms])
  then show ?thesis by (simp add: deduplicateResults_def)
qed

lemma deduplicateResults_idempotent_orderFree:
  assumes free: "orderFree fmtv groups results"
    and v1: "validOrders orders1 results"
    and v2: "validOrders orders2 (deduplicateResults fmtv orders1 results groups)"
  shows "deduplicateResults fmtv orders2 (deduplicateResults fmtv orders1 results groups) groups
       = deduplicateResults fmtv orders1 results groups"
proof (cases "results = []")
  case True
  then show ?thesis by (simp add: deduplicateResults_def)
next
  case False
  define K where "K r = generateResultKey fmtv (SOME order. validOrder order r) r groups" for r
  let ?D = "dedupLoop fmtv orders1 groups (\<lambda>_. False) [] 0 results"
  have D1: "deduplicateResults fmtv orders1 results groups = ?D"
    using False by (simp add: deduplicateResults_def)
  have K: "generateResultKey fmtv order r groups = K r"
    if "r \<in> set results" "validOrder order r" for order r
  proof -
    have "validOrder (SOME order. validOrder order r) r"
      using that(2) by (rule someI)
    then have "generateResultKey fmtv order r groups
        = generateResultKey fmtv (SOME order. validOrder order r) r groups"
      using free that unfolding orderFree_def by blast
    then show ?thesis by (simp only: K_def)
  qed
  have keys1: "generateResultKey fmtv (orders1 (0 + k)) (results ! k) groups = K (results ! k)"
    if "k < length results" for k
    using that v1 by (intro K) (simp_all add: validOrders_def)
  obtain ys where "?D = [] @ ys" "set ys \<subseteq> set results"
    using dedupLoop_append_only [of fmtv orders1 groups "\<lambda>_. False" "[]" 0 results]
    by blast
  then have sub: "set ?D \<subseteq> set results" by simp
  have dist: "distinct (map K ?D)"
    by (rule dedupLoop_distinct_keys [OF keys1]) simp_all
  have keys2: "generateResultKey fmtv (orders2 (0 + k)) (?D ! k) groups = K (?D ! k)"
    if "k < length ?D" for k
  proof -
    have "?D ! k \<in> set results" using that sub by (meson nth_mem subsetD)
    moreover have "validOrder (orders2 k) (?D ! k)"
      using v2 that by (simp add: D1 validOrders_def)
    ultimately show ?thesis by (simp add: K)
  qed
  have "dedupLoop fmtv orders2 groups (\<lambda>_. False) [] 0 ?D = [] @ ?D"
    by (rule dedupLoop_keeps_distinct [OF keys2 dist]) simp_all
  then have "deduplicateResults fmtv orders2 ?D groups = ?D"
    by (simp add: deduplicateResults_def)
  then show ?thesis by (simp add: D1)
qed

text \<open>A record that matches a group has an order-free key, and so has a record with at
  most one usable column.\<close>

lemma filter_one_usable:
  assumes one: "\<And>f g. f \<in> dom result \<Longrightarrow> g \<in> dom result \<Longrightarrow> usable fmtv result f
      \<Longrightarrow> usable fmtv result g \<Longrightarrow> f = g"
    and v: "validOrder order result" and v': "validOrder order' result"
  shows "filter (usable fmtv result) order = filter (usable fmtv result) order'"
proof -
  let ?P = "usable fmtv result"
  show ?thesis
  proof -
    have d: "distinct (filter ?P order)" "distinct (filter ?P order')"
      using v v' by (simp_all add: validOrder_def)
    have s: "set (filter ?P order) = set (filter ?P order')"
      using v v' by (auto simp: validOrder_def)
    have le: "xs = [] \<or> (\<exists>f. xs = [f])"
      if "distinct xs" "set xs \<subseteq> {f \<in> dom result. ?P f}" for xs
    proof (cases xs)
      case Nil
      then show ?thesis by simp
    next
      case (Cons a ys)
      have "ys = []"
      proof (cases ys)
        case Nil
        then show ?thesis by simp
      next
        case (Cons b zs)
        then have "a \<noteq> b" using that(1) \<open>xs = a # ys\<close> by auto
        moreover have "a = b"
          using that(2) \<open>xs = a # ys\<close> Cons by (intro one) auto
        ultimately show ?thesis by simp
      qed
      then show ?thesis using Cons by simp
    qed
    have sub: "set (filter ?P order) \<subseteq> {f \<in> dom result. ?P f}"
      "set (filter ?P order') \<subseteq> {f \<in> dom result. ?P f}"
      using v v' by (auto simp: validOrder_def)
    have eq: "xs = ys"
      if "set xs = set ys" "xs = [] \<or> (\<exists>f. xs = [f])" "ys = [] \<or> (\<exists>f. ys = [f])"
      for xs ys :: "string list"
      using that by auto
    show ?thesis
      by (rule eq [OF s le [OF d(1) sub(1)] le [OF d(2) sub(2)]])
  qed
qed

lemma orderFree_if_groups_match_or_one_usable:
  assumes "\<And>result. result \<in> set results \<Longrightarrow>
      find (usableGroup fmtv result) groups \<noteq> None \<or>
      (\<forall>f \<in> dom result. \<forall>g \<in> dom result.
         usable fmtv result f \<and> usable fmtv result g \<longrightarrow> f = g)"
  shows "orderFree fmtv groups results"
  unfolding orderFree_def
proof (intro ballI allI impI)
  fix result order order'
  assume r: "result \<in> set results"
    and v: "validOrder order result \<and> validOrder order' result"
  show "generateResultKey fmtv order result groups
      = generateResultKey fmtv order' result groups"
  proof (cases "find (usableGroup fmtv result) groups")
    case (Some flds)
    then show ?thesis by (simp add: generateResultKey_eq)
  next
    case None
    then have "\<forall>f \<in> dom result. \<forall>g \<in> dom result.
         usable fmtv result f \<and> usable fmtv result g \<longrightarrow> f = g"
      using assms [OF r] by simp
    then have "filter (usable fmtv result) order = filter (usable fmtv result) order'"
      using v by (intro filter_one_usable) auto
    then show ?thesis using None by (simp add: generateResultKey_eq)
  qed
qed

lemma orderFree_if_groups_match:
  assumes "\<And>result. result \<in> set results \<Longrightarrow> find (usableGroup fmtv result) groups \<noteq> None"
  shows "orderFree fmtv groups results"
  unfolding orderFree_def
proof (intro ballI allI impI)
  fix result order order'
  assume "result \<in> set results"
  then obtain flds where "find (usableGroup fmtv result) groups = Some flds"
    using assms by blast
  then show "generateResultKey fmtv order result groups
           = generateResultKey fmtv order' result groups"
    by (simp add: generateResultKey_eq)
qed


text \<open>
  Claim C4, as amended.  A group gives the key only if it is not empty and every field of
  it is present, not nil and rendered to a text that is neither empty nor \<^verbatim>\<open><nil>\<close>
  (\<open>usableGroup\<close>); the key of the first such group joins its \<open>field:value\<close> pairs with
  \<^verbatim>\<open>|\<close>.  If there is none, the key joins the pairs of all fields of the record that pass
  the same test, in the order in which the map is iterated.  A record is kept exactly when
  no earlier record had its key, and the records kept stay in the order of the input.
\<close>

theorem generateResultKey_and_deduplicateResults:
  "generateResultKey fmtv order result keyFieldGroups =
     (case find (usableGroup fmtv result) keyFieldGroups of
        Some flds \<Rightarrow> Join (map (fieldPair fmtv result) flds) ''|''
      | None \<Rightarrow> Join (map (fieldPair fmtv result) (filter (usable fmtv result) order)) ''|'') \<and>
   deduplicateResults fmtv orders results keyFieldGroups =
     map (\<lambda>i. results ! i)
       (filter (firstSeen fmtv orders keyFieldGroups results) [0 ..< length results]) \<and>
   subseq (deduplicateResults fmtv orders results keyFieldGroups) results"
  using generateResultKey_eq deduplicateResults_eq deduplicateResults_subseq
  by (intro conjI) blast+

theorem generateResultKey_and_deduplicateResults_witness:
  "usableGroup (\<lambda>v. case v of VString s \<Rightarrow> s | _ \<Rightarrow> [])
     [''user_id'' \<mapsto> VString ''7'', ''order_id'' \<mapsto> VString ''9''] [''user_id'', ''order_id''] \<and>
   generateResultKey (\<lambda>v. case v of VString s \<Rightarrow> s | _ \<Rightarrow> []) [''order_id'', ''user_id'']
     [''user_id'' \<mapsto> VString ''7'', ''order_id'' \<mapsto> VString ''9'']
     [[''id''], [''user_id'', ''order_id'']] = ''user_id:7|order_id:9'' \<and>
   firstSeen (\<lambda>v. case v of VString s \<Rightarrow> s | _ \<Rightarrow> []) (\<lambda>i. [''id''])
     [[''id'']]
     [[''id'' \<mapsto> VString ''1''], [''id'' \<mapsto> VString ''2''], [''id'' \<mapsto> VString ''1'']] 1 \<and>
   deduplicateResults (\<lambda>v. case v of VString s \<Rightarrow> s | _ \<Rightarrow> []) (\<lambda>i. [''id''])
     [[''id'' \<mapsto> VString ''1''], [''id'' \<mapsto> VString ''2''], [''id'' \<mapsto> VString ''1'']]
     [[''id'']]
   = [[''id'' \<mapsto> VString ''1''], [''id'' \<mapsto> VString ''2'']]"
  using generateResultKey_and_deduplicateResults
    [of "\<lambda>v. case v of VString s \<Rightarrow> s | _ \<Rightarrow> []" "[''order_id'', ''user_id'']"
        "[''user_id'' \<mapsto> VString ''7'', ''order_id'' \<mapsto> VString ''9'']"
        "[[''id''], [''user_id'', ''order_id'']]" "\<lambda>i. [''id'']"
        "[[''id'' \<mapsto> VString ''1''], [''id'' \<mapsto> VString ''2''], [''id'' \<mapsto> VString ''1'']]"]
  by (simp add: usableGroup_def usable_def fieldPair_def firstSeen_def keyAt_def
      deduplicateResults_def keyPart_def)

text \<open>
  Claim C4 as stated fails: two records whose \<open>id\<close> is the empty string have, in the
  words of the claim, the same key \<open>id:\<close> from the group \<open>[id]\<close>, so the second would be
  dropped.  The code does not accept the empty rendering, falls back to all fields, finds
  the keys \<open>name:a\<close> and \<open>name:b\<close>, and keeps both records.
\<close>

theorem deduplicateResults_empty_string_field:
  "spec_key (\<lambda>v. case v of VString s \<Rightarrow> s | _ \<Rightarrow> []) [''id'', ''name'']
     [''id'' \<mapsto> VString [], ''name'' \<mapsto> VString ''a''] [[''id'']] = ''id:'' \<and>
   spec_key (\<lambda>v. case v of VString s \<Rightarrow> s | _ \<Rightarrow> []) [''id'', ''name'']
     [''id'' \<mapsto> VString [], ''name'' \<mapsto> VString ''b''] [[''id'']] = ''id:'' \<and>
   generateResultKey (\<lambda>v. case v of VString s \<Rightarrow> s | _ \<Rightarrow> []) [''id'', ''name'']
     [''id'' \<mapsto> VString [], ''name'' \<mapsto> VString ''a''] [[''id'']] = ''name:a'' \<and>
   generateResultKey (\<lambda>v. case v of VString s \<Rightarrow> s | _ \<Rightarrow> []) [''id'', ''name'']
     [''id'' \<mapsto> VString [], ''name'' \<mapsto> VString ''b''] [[''id'']] = ''name:b'' \<and>
   deduplicateResults (\<lambda>v. case v of VString s \<Rightarrow> s | _ \<Rightarrow> []) (\<lambda>i. [''id'', ''name''])
     [[''id'' \<mapsto> VString [], ''name'' \<mapsto> VString ''a''],
      [''id'' \<mapsto> VString [], ''name'' \<mapsto> VString ''b'']] [[''id'']]
   = [[''id'' \<mapsto> VString [], ''name'' \<mapsto> VString ''a''],
      [''id'' \<mapsto> VString [], ''name'' \<mapsto> VString ''b'']]"
  by (simp add: spec_key_def spec_present_def fieldPair_def deduplicateResults_def keyPart_def
      allFieldsKey_def List.map_filter_simps)

text \<open>
  Claim C9.  The claim: \<open>dedup (dedup L) = dedup L\<close> for every list of records and every
  list of field groups.  It holds whenever no key depends on the iteration order of a
  record (\<open>deduplicateResults_idempotent_orderFree\<close>), in particular when every record
  matches a group.  A record that matches no group gets its key from a \<^verbatim>\<open>range\<close> over the
  map, and Go does not fix the order of that iteration.  Take twice the record with the
  columns \<open>a = 1\<close> and \<open>b = 2\<close> and the default groups.  A first run that meets the orders
  \<open>a, b\<close> and \<open>b, a\<close> builds two different keys and keeps both records; a run over its
  result that meets the order \<open>a, b\<close> twice keeps one.
\<close>

theorem deduplicateResults_fallback_key_not_idempotent:
  "validOrder [''a'', ''b''] [''a'' \<mapsto> VString ''1'', ''b'' \<mapsto> VString ''2''] \<and>
   validOrder [''b'', ''a''] [''a'' \<mapsto> VString ''1'', ''b'' \<mapsto> VString ''2''] \<and>
   deduplicateResults (\<lambda>v. case v of VString s \<Rightarrow> s | _ \<Rightarrow> [])
     (\<lambda>i. if i = 0 then [''a'', ''b''] else [''b'', ''a''])
     [[''a'' \<mapsto> VString ''1'', ''b'' \<mapsto> VString ''2''],
      [''a'' \<mapsto> VString ''1'', ''b'' \<mapsto> VString ''2'']] GetDefaultDeduplicateFields
   = [[''a'' \<mapsto> VString ''1'', ''b'' \<mapsto> VString ''2''],
      [''a'' \<mapsto> VString ''1'', ''b'' \<mapsto> VString ''2'']] \<and>
   deduplicateResults (\<lambda>v. case v of VString s \<Rightarrow> s | _ \<Rightarrow> []) (\<lambda>i. [''a'', ''b''])
     (deduplicateResults (\<lambda>v. case v of VString s \<Rightarrow> s | _ \<Rightarrow> [])
        (\<lambda>i. if i = 0 then [''a'', ''b''] else [''b'', ''a''])
        [[''a'' \<mapsto> VString ''1'', ''b'' \<mapsto> VString ''2''],
         [''a'' \<mapsto> VString ''1'', ''b'' \<mapsto> VString ''2'']] GetDefaultDeduplicateFields)
     GetDefaultDeduplicateFields
   = [[''a'' \<mapsto> VString ''1'', ''b'' \<mapsto> VString ''2'']]"
  by (auto simp: validOrder_def deduplicateResults_def keyPart_def allFieldsKey_def
      List.map_filter_simps GetDefaultDeduplicateFields_def)


subsection \<open>Fan-out and its error policy\<close>

lemma rowsOf_Nil: "rowsOf exec [] = []"
  by (simp add: rowsOf_def)

lemma rowsOf_Cons:
  "rowsOf exec (q # qs) = (case exec q of Inl msg \<Rightarrow> [] | Inr rows \<Rightarrow> rows) @ rowsOf exec qs"
  by (simp add: rowsOf_def)

lemma rowsOf_append: "rowsOf exec (ps @ qs) = rowsOf exec ps @ rowsOf exec qs"
  by (simp add: rowsOf_def)

lemma queryTables_all_skipped:
  assumes "\<forall>t \<in> set tableNames. \<forall>msg. exec t = Inl msg \<longrightarrow> missingTableError msg"
  shows "queryTables exec dest tableNames = (dest @ rowsOf exec tableNames, None)"
  using assms
proof (induction tableNames arbitrary: dest)
  case Nil
  then show ?case by (simp add: rowsOf_Nil)
next
  case (Cons t ts)
  then show ?case by (cases "exec t") (simp_all add: rowsOf_Cons)
qed

lemma queryTables_abort:
  assumes "\<forall>t \<in> set before. \<forall>m. exec t = Inl m \<longrightarrow> missingTableError m"
    and "exec tableName = Inl msg" and "\<not> missingTableError msg"
  shows "queryTables exec dest (before @ tableName # after)
           = (dest @ rowsOf exec before, Some (StoreError msg))"
  using assms
proof (induction before arbitrary: dest)
  case Nil
  then show ?case by (simp add: rowsOf_Nil)
next
  case (Cons t ts)
  then show ?case by (cases "exec t") (simp_all add: rowsOf_Cons)
qed

lemma joinCombinations_all_skipped:
  assumes "\<forall>c \<in> set combinations. \<forall>msg. exec c = Inl msg \<longrightarrow> missingTableOrColumnError msg"
  shows "joinCombinations exec wrap allResults combinations
           = Inr (allResults @ rowsOf exec combinations)"
  using assms
proof (induction combinations arbitrary: allResults)
  case Nil
  then show ?case by (simp add: rowsOf_Nil)
next
  case (Cons c cs)
  then show ?case by (cases "exec c") (simp_all add: rowsOf_Cons)
qed

lemma joinCombinations_abort:
  assumes "\<forall>c \<in> set before. \<forall>m. exec c = Inl m \<longrightarrow> missingTableOrColumnError m"
    and "exec combination = Inl msg" and "\<not> missingTableOrColumnError msg"
  shows "joinCombinations exec wrap allResults (before @ combination # after)
           = Inl (wrap combination msg)"
  using assms
proof (induction before arbitrary: allResults)
  case Nil
  then show ?case by simp
next
  case (Cons c cs)
  then show ?case by (cases "exec c") simp_all
qed

lemma countTables_all_skipped:
  assumes "\<forall>t \<in> set tableNames. \<forall>msg. exec t = Inl msg \<longrightarrow> missingTableError msg"
  shows "countTables exec totalCount tableNames = Inr (totalCount + countsOf exec tableNames)"
  using assms
proof (induction tableNames arbitrary: totalCount)
  case Nil
  then show ?case by (simp add: countsOf_def)
next
  case (Cons t ts)
  then show ?case by (cases "exec t") (simp_all add: countsOf_def add.assoc)
qed

lemma countTables_abort:
  assumes "\<forall>t \<in> set before. \<forall>m. exec t = Inl m \<longrightarrow> missingTableError m"
    and "exec tableName = Inl msg" and "\<not> missingTableError msg"
  shows "countTables exec totalCount (before @ tableName # after) = Inl (StoreError msg)"
  using assms
proof (induction before arbitrary: totalCount)
  case Nil
  then show ?case by simp
next
  case (Cons t ts)
  then show ?case by (cases "exec t") simp_all
qed

lemma missing_relation:
  "spec_missingShard msg = missingTableOrColumnError msg \<and>
   missingTableOrColumnError msg
     = (missingTableError msg \<or> Contains (ToLower msg) ''unknown column'')"
  by (auto simp: spec_missingShard_def missingTableOrColumnError_def missingTableError_def
      Let_def)


text \<open>Some error messages, classified.\<close>

lemma msg_missing_table: "missingTableError ''Error 1146: Table 'db.logs_2' doesn't exist''"
  by code_simp

lemma msg_missing_table_join:
  "missingTableOrColumnError ''Error 1146: Table 'db.logs_2' doesn't exist''"
  by code_simp

lemma msg_refused: "\<not> missingTableOrColumnError ''dial tcp: connection refused''"
  by code_simp

lemma msg_refused_query: "\<not> missingTableError ''dial tcp: connection refused''"
  by code_simp

lemma msg_unknown_column:
  "spec_missingShard ''Error 1054: Unknown column 'level' in 'where clause' '' \<and>
   missingTableOrColumnError ''Error 1054: Unknown column 'level' in 'where clause' '' \<and>
   \<not> missingTableError ''Error 1054: Unknown column 'level' in 'where clause' ''"
  by code_simp

text \<open>
  Claim C3, as amended.  The multi-way join fan-out skips an error whose lower-cased
  message contains \<^verbatim>\<open>doesn't exist\<close>, \<^verbatim>\<open>unknown table\<close>, both \<^verbatim>\<open>table\<close> and
  \<^verbatim>\<open>not found\<close>, or \<^verbatim>\<open>unknown column\<close>; the query and the count over the tables of one
  strategy skip the first three kinds only.  If every error met is one that is skipped,
  the fan-out delivers the rows (or the sum of the counts) of the remaining queries in
  their order.  Otherwise it stops at the first other error and returns it: the multi-way
  join returns it wrapped and no rows, the count returns it and no count, and the query
  returns it while the rows of the tables before it stay in the destination.
\<close>

theorem fanout_error_policy:
  "spec_missingShard msg = missingTableOrColumnError msg \<and>
   missingTableOrColumnError msg
     = (missingTableError msg \<or> Contains (ToLower msg) ''unknown column'') \<and>
   ((\<forall>c \<in> set combinations. \<forall>m. execJ c = Inl m \<longrightarrow> missingTableOrColumnError m) \<longrightarrow>
      joinCombinations execJ wrap allResults combinations
        = Inr (allResults @ rowsOf execJ combinations)) \<and>
   ((\<forall>c \<in> set beforeJ. \<forall>m. execJ c = Inl m \<longrightarrow> missingTableOrColumnError m) \<and>
    execJ combination = Inl msgJ \<and> \<not> missingTableOrColumnError msgJ \<longrightarrow>
      joinCombinations execJ wrap allResults (beforeJ @ combination # afterJ)
        = Inl (wrap combination msgJ)) \<and>
   ((\<forall>t \<in> set tableNames. \<forall>m. execQ t = Inl m \<longrightarrow> missingTableError m) \<longrightarrow>
      queryTables execQ dest tableNames = (dest @ rowsOf execQ tableNames, None)) \<and>
   ((\<forall>t \<in> set beforeQ. \<forall>m. execQ t = Inl m \<longrightarrow> missingTableError m) \<and>
    execQ tableName = Inl msgQ \<and> \<not> missingTableError msgQ \<longrightarrow>
      queryTables execQ dest (beforeQ @ tableName # afterQ)
        = (dest @ rowsOf execQ beforeQ, Some (StoreError msgQ))) \<and>
   ((\<forall>t \<in> set tableNames. \<forall>m. execC t = Inl m \<longrightarrow> missingTableError m) \<longrightarrow>
      countTables execC totalCount tableNames
        = Inr (totalCount + countsOf execC tableNames)) \<and>
   ((\<forall>t \<in> set beforeC. \<forall>m. execC t = Inl m \<longrightarrow> missingTableError m) \<and>
    execC tableNameC = Inl msgC \<and> \<not> missingTableError msgC \<longrightarrow>
      countTables execC totalCount (beforeC @ tableNameC # afterC) = Inl (StoreError msgC))"
  using missing_relation [of msg]
    joinCombinations_all_skipped [of combinations execJ wrap allResults]
    joinCombinations_abort [of beforeJ execJ combination msgJ wrap allResults afterJ]
    queryTables_all_skipped [of tableNames execQ dest]
    queryTables_abort [of beforeQ execQ tableName msgQ dest afterQ]
    countTables_all_skipped [of tableNames execC totalCount]
    countTables_abort [of beforeC execC tableNameC msgC totalCount afterC]
  by (intro conjI impI) blast+

theorem fanout_error_policy_witness:
  "CrossTableQueryWithTimeRange
     (\<lambda>t. if t = ''logs_2'' then Inl ''Error 1146: Table 'db.logs_2' doesn't exist''
          else Inr [t])
     [] [''logs_1'', ''logs_2'', ''logs_3'']
   = ([''logs_1'', ''logs_3''], None) \<and>
   CrossTableQueryWithTimeRange
     (\<lambda>t. if t = ''logs_2'' then Inl ''dial tcp: connection refused'' else Inr [t])
     [] [''logs_1'', ''logs_2'', ''logs_3'']
   = ([''logs_1''], Some (StoreError ''dial tcp: connection refused'')) \<and>
   CrossTableCount
     (\<lambda>t. if t = ''logs_2'' then Inl ''Error 1146: Table 'db.logs_2' doesn't exist''
          else Inr 5)
     [''logs_1'', ''logs_2'', ''logs_3'']
   = Inr 10 \<and>
   CrossTableCount
     (\<lambda>t. if t = ''logs_2'' then Inl ''dial tcp: connection refused'' else Inr 5)
     [''logs_1'', ''logs_2'', ''logs_3'']
   = Inl (StoreError ''dial tcp: connection refused'') \<and>
   joinCombinations
     (\<lambda>c. if c = [''users_0'', ''logs_2'']
          then Inl ''Error 1146: Table 'db.logs_2' doesn't exist''
          else Inr [[''id'' \<mapsto> VString (concat c)]])
     QueryErrorOnTables [] [[''users_0'', ''logs_1''], [''users_0'', ''logs_2'']]
   = Inr [[''id'' \<mapsto> VString ''users_0logs_1'']] \<and>
   joinCombinations
     (\<lambda>c. if c = [''users_0'', ''logs_2''] then Inl ''dial tcp: connection refused''
          else Inr [[''id'' \<mapsto> VString (concat c)]])
     QueryErrorOnTables [] [[''users_0'', ''logs_1''], [''users_0'', ''logs_2'']]
   = Inl (QueryErrorOnTables [''users_0'', ''logs_2''] ''dial tcp: connection refused'')"
proof -
  let ?gone = "''Error 1146: Table 'db.logs_2' doesn't exist''"
  let ?refused = "''dial tcp: connection refused''"
  let ?q1 = "\<lambda>t. if t = ''logs_2'' then Inl ?gone else Inr [t]"
  let ?q2 = "\<lambda>t. if t = ''logs_2'' then Inl ?refused else Inr [t]"
  let ?c1 = "\<lambda>t. if t = ''logs_2'' then Inl ?gone else (Inr 5 :: string + 64 word)"
  let ?c2 = "\<lambda>t. if t = ''logs_2'' then Inl ?refused else (Inr 5 :: string + 64 word)"
  let ?j1 = "\<lambda>c. if c = [''users_0'', ''logs_2''] then Inl ?gone
      else Inr [[''id'' \<mapsto> VString (concat c)]]"
  let ?j2 = "\<lambda>c. if c = [''users_0'', ''logs_2''] then Inl ?refused
      else Inr [[''id'' \<mapsto> VString (concat c)]]"
  note p1 = fanout_error_policy [of ?gone "[[''users_0'', ''logs_1''], [''users_0'', ''logs_2'']]"
      ?j1 QueryErrorOnTables "[]" "[]" "[''users_0'', ''logs_2'']" ?gone "[]"
      "[''logs_1'', ''logs_2'', ''logs_3'']" ?q1 "[]" "[]" "''logs_2''" ?gone "[]"
      ?c1 0 "[]" "''logs_2''" ?gone "[]"]
  note p2 = fanout_error_policy [of ?refused "[]"
      ?j2 QueryErrorOnTables "[]" "[[''users_0'', ''logs_1'']]" "[''users_0'', ''logs_2'']"
      ?refused "[]"
      "[]" ?q2 "[]" "[''logs_1'']" "''logs_2''" ?refused "[''logs_3'']"
      ?c2 0 "[''logs_1'']" "''logs_2''" ?refused "[''logs_3'']"]
  show ?thesis
    using p1 p2 msg_missing_table msg_missing_table_join msg_refused msg_refused_query
    by (simp add: CrossTableQueryWithTimeRange_def CrossTableCount_def rowsOf_def countsOf_def)
qed


text \<open>
  Claim C3 as stated fails for the query over the tables of one strategy: an
  \<^verbatim>\<open>Unknown column\<close> error, one of the messages the claim has skipped, aborts it, and the
  rows of the table queried before remain in the destination.
\<close>

theorem CrossTableQuery_aborts_on_unknown_column:
  "spec_missingShard ''Error 1054: Unknown column 'level' in 'where clause' '' \<and>
   CrossTableQueryWithTimeRange
     (\<lambda>t. if t = ''logs_2'' then Inl ''Error 1054: Unknown column 'level' in 'where clause' ''
          else Inr [t])
     [] [''logs_1'', ''logs_2'', ''logs_3'']
   = ([''logs_1''], Some (StoreError ''Error 1054: Unknown column 'level' in 'where clause' ''))"
  using msg_unknown_column
  by (simp add: CrossTableQueryWithTimeRange_def)


subsection \<open>Pagination\<close>

lemma wrap64_id: "- (2 ^ 63) \<le> x \<Longrightarrow> x < 2 ^ 63 \<Longrightarrow> wrap64 x = x"
  by (simp add: wrap64_def signed_take_bit_int_eq_self)

lemma paginateSlice_in_range:
  assumes page: "1 \<le> page" and ps: "1 \<le> pageSize" "pageSize < 2 ^ 63"
    and off: "(page - 1) * pageSize < 2 ^ 63"
    and len: "int (length xs) < 2 ^ 62"
  shows "paginateSlice xs page pageSize
           = Done (take (nat pageSize) (drop (nat ((page - 1) * pageSize)) xs))"
proof -
  let ?off = "(page - 1) * pageSize"
  have off0: "0 \<le> ?off" using page ps by simp
  have w1: "wrap64 ?off = ?off" using off0 off by (intro wrap64_id) auto
  show ?thesis
  proof (cases "int (length xs) \<le> ?off")
    case True
    then have "drop (nat ?off) xs = []" by simp
    then show ?thesis using True by (simp add: paginateSlice_def Let_def w1)
  next
    case False
    then have lt: "?off < int (length xs)" by simp
    have "?off + pageSize < 2 ^ 63"
    proof (cases "page = 1")
      case True
      then show ?thesis using ps by simp
    next
      case False
      then have "1 \<le> page - 1" using page by simp
      then have "0 \<le> (page - 2) * pageSize" using ps by simp
      moreover have "?off = (page - 2) * pageSize + pageSize" by (simp add: algebra_simps)
      ultimately have "pageSize \<le> ?off" by linarith
      then have "?off + pageSize \<le> 2 * ?off" by linarith
      also have "\<dots> < 2 * 2 ^ 62" using lt len by linarith
      finally show ?thesis by simp
    qed
    then have w2: "wrap64 (?off + pageSize) = ?off + pageSize"
      using off0 ps by (intro wrap64_id) auto
    have tk: "take (nat (int (length xs) - ?off)) (drop (nat ?off) xs)
            = take (nat pageSize) (drop (nat ?off) xs)"
      if "int (length xs) < ?off + pageSize"
    proof -
      have "length (drop (nat ?off) xs) = nat (int (length xs) - ?off)"
        using off0 by (simp add: nat_diff_distrib)
      moreover have "nat (int (length xs) - ?off) \<le> nat pageSize" using that by simp
      ultimately show ?thesis by simp
    qed
    show ?thesis
      using False lt off0 ps tk
      by (simp add: paginateSlice_def Let_def w1 w2)
  qed
qed

lemma sum_page_lengths:
  "(\<Sum>k < T. length (take ps (drop (k * ps) xs))) = min (length xs) (T * ps)"
proof (induction T)
  case 0
  then show ?case by simp
next
  case (Suc T)
  have l: "length (take ps (drop (T * ps) xs)) = min ps (length xs - T * ps)"
    by (simp add: min.commute)
  have "min (length xs) (T * ps) + min ps (length xs - T * ps)
      = min (length xs) (Suc T * ps)"
    by (cases "length xs \<le> T * ps") (auto simp: min_def)
  then show ?case using Suc l by simp
qed

lemma sum_int_interval:
  fixes f :: "int \<Rightarrow> int"
  shows "(\<Sum>p = 1..int T. f p) = (\<Sum>k < T. f (int k + 1))"
proof (induction T)
  case 0
  then show ?case by simp
next
  case (Suc T)
  have "{1..int (Suc T)} = insert (int T + 1) {1..int T}" by auto
  then have "(\<Sum>p = 1..int (Suc T). f p) = f (int T + 1) + (\<Sum>p = 1..int T. f p)"
    by simp
  then show ?case using Suc by simp
qed

lemma totalPages_eq:
  assumes "0 \<le> (n :: int)" "1 \<le> ps"
  shows "(let t = n sdiv ps in if 0 < n smod ps then t + 1 else t) = (n + ps - 1) div ps"
proof -
  have sd: "n sdiv ps = n div ps" using assms by (simp add: signed_divide_int_def sgn_if)
  have sm: "n smod ps = n mod ps" using assms by (simp add: smod_mod_positive)
  have m: "0 \<le> n mod ps" "n mod ps < ps" using assms by simp_all
  show ?thesis
  proof (cases "n mod ps = 0")
    case True
    have "ps dvd n" using True by (simp add: dvd_eq_mod_eq_0)
    then have "ps * (n div ps) = n" by simp
    then have "n + ps - 1 = ps * (n div ps) + (ps - 1)" by simp
    then have "(n + ps - 1) div ps = n div ps"
      using assms by (intro int_div_pos_eq [of _ _ _ "ps - 1"]) auto
    then show ?thesis using True by (simp add: sd sm Let_def)
  next
    case False
    then have pos: "0 < n mod ps" using m by simp
    have "n + ps - 1 = ps * (n div ps + 1) + (n mod ps - 1)"
      by (simp add: algebra_simps)
    then have "(n + ps - 1) div ps = n div ps + 1"
      using pos m by (intro int_div_pos_eq [of _ _ _ "n mod ps - 1"]) auto
    then show ?thesis using pos by (simp add: sd sm Let_def)
  qed
qed

lemma pages_cover:
  assumes "0 \<le> (n :: int)" "1 \<le> ps"
  shows "n \<le> ((n + ps - 1) div ps) * ps" and "0 \<le> (n + ps - 1) div ps"
proof -
  have "(n + ps - 1) mod ps < ps" using assms by simp
  moreover have "(n + ps - 1) = ((n + ps - 1) div ps) * ps + (n + ps - 1) mod ps" by simp
  ultimately show "n \<le> ((n + ps - 1) div ps) * ps" by linarith
  show "0 \<le> (n + ps - 1) div ps" using assms by (simp add: pos_imp_zdiv_nonneg_iff)
qed

lemma convertLoop_all:
  assumes "\<forall>r \<in> set rs. \<exists>x. mapToStruct r = Inr x"
  shows "convertLoop mapToStruct dest rs = Done (dest @ map (\<lambda>r. projr (mapToStruct r)) rs)"
  using assms
proof (induction rs arbitrary: dest)
  case Nil
  then show ?case by simp
next
  case (Cons r rs)
  then obtain x where "mapToStruct r = Inr x" by auto
  then show ?case using Cons by simp
qed


lemma deduplicateResults_subset:
  "set (deduplicateResults fmtv orders results groups) \<subseteq> set results"
  using list_emb_set [OF deduplicateResults_subseq [of fmtv orders results groups]]
  by auto

lemma deduplicateResults_length:
  "length (deduplicateResults fmtv orders results groups) \<le> length results"
  by (rule list_emb_length [OF deduplicateResults_subseq])

lemma convertResults_all:
  assumes "\<forall>r \<in> set rs. \<exists>x. mapToStruct r = Inr x"
  shows "convertResults mapToStruct rs dest = Done (dest @ map (\<lambda>r. projr (mapToStruct r)) rs)"
  using convertLoop_all [OF assms] by (simp add: convertResults_def)

lemma CrossTableMultiJoinPaginate_page:
  fixes mapToStruct :: "ResultRecord \<Rightarrow> panic + 'a"
  assumes ps: "1 \<le> pageSize" "pageSize < 2 ^ 63"
    and skip: "\<forall>c \<in> set combos. \<forall>m. exec c = Inl m \<longrightarrow> missingTableOrColumnError m"
    and free: "orderFree fmtv (effectiveFields groups) (rowsOf exec combos)"
    and valid: "validOrders orders0 (rowsOf exec combos)"
      "validOrders orders1 (rowsOf exec combos)" "validOrders orders2 (rowsOf exec combos)"
    and conv: "\<forall>r \<in> set (rowsOf exec combos). \<exists>x. mapToStruct r = Inr x"
    and small: "int (length (rowsOf exec combos)) < 2 ^ 62"
    and page: "1 \<le> page" "(page - 1) * pageSize < 2 ^ 63"
  shows "CrossTableMultiJoinPaginate fmtv orders1 orders2 mapToStruct exec combos groups []
           page pageSize
         = Done \<lparr> Page = page, PageSize = pageSize,
             Total = int (length (deduplicateResults fmtv orders0 (rowsOf exec combos)
                       (effectiveFields groups))),
             TotalPages = (int (length (deduplicateResults fmtv orders0 (rowsOf exec combos)
                       (effectiveFields groups))) + pageSize - 1) div pageSize,
             Data = take (nat pageSize) (drop (nat ((page - 1) * pageSize))
                      (map (\<lambda>r. projr (mapToStruct r))
                         (deduplicateResults fmtv orders0 (rowsOf exec combos)
                            (effectiveFields groups)))) \<rparr>"
proof -
  let ?rows = "rowsOf exec combos"
  let ?G = "effectiveFields groups"
  let ?D = "deduplicateResults fmtv orders0 ?rows ?G"
  let ?xs = "map (\<lambda>r. projr (mapToStruct r)) ?D"
  have j: "joinCombinations exec wrap [] combos = Inr ?rows" for wrap
    by (simp only: joinCombinations_all_skipped [OF skip] append_Nil)
  have d1: "deduplicateResults fmtv orders1 ?rows ?G = ?D"
    by (rule deduplicateResults_orderFree [OF free valid(2) valid(1)])
  have d2: "deduplicateResults fmtv orders2 ?rows ?G = ?D"
    by (rule deduplicateResults_orderFree [OF free valid(3) valid(1)])
  have cnt: "CrossTableMultiJoinCount fmtv orders1 exec combos groups = Inr (int (length ?D))"
    by (simp add: CrossTableMultiJoinCount_def j d1)
  have "\<forall>r \<in> set ?D. \<exists>x. mapToStruct r = Inr x"
    using conv deduplicateResults_subset [of fmtv orders0 ?rows ?G] by blast
  then have cv: "convertResults mapToStruct ?D [] = Done ?xs"
    using convertResults_all [of ?D mapToStruct "[]"] by simp
  have qry: "CrossTableMultiJoin fmtv orders2 mapToStruct exec combos groups [] = Done ?xs"
    by (simp add: CrossTableMultiJoin_def j d2 cv)
  have len: "int (length ?xs) < 2 ^ 62"
    using small deduplicateResults_length [of fmtv orders0 ?rows ?G] by simp
  have pg: "paginateSlice ?xs page pageSize
      = Done (take (nat pageSize) (drop (nat ((page - 1) * pageSize)) ?xs))"
    by (rule paginateSlice_in_range [OF page(1) ps page(2) len])
  have tp: "(let t = int (length ?D) sdiv pageSize
             in if 0 < int (length ?D) smod pageSize then t + 1 else t)
          = (int (length ?D) + pageSize - 1) div pageSize"
    by (rule totalPages_eq) (use ps in simp_all)
  have c1: "\<not> page < 1" "\<not> pageSize < 1" using page ps by simp_all
  show ?thesis
    unfolding CrossTableMultiJoinPaginate_def
    using tp by (simp add: c1 cnt qry pg Let_def)
qed


text \<open>
  Claim C5, as amended.  Take a page size of at least 1, a fan-out in which every error is
  one that is skipped, rows each of which has the same deduplication key for every order
  in which its map can be iterated (\<open>orderFree\<close>), rows that \<open>mapToStruct\<close> converts, fewer
  than \<open>2\<^sup>6\<^sup>2\<close> rows, and an empty destination.  Then every request for a page whose offset
  \<open>(page - 1) \<cdot> pageSize\<close> is below \<open>2\<^sup>6\<^sup>3\<close> returns a paginator; all of them report the
  same \<open>Total\<close> and \<open>TotalPages\<close>; a page beyond \<open>TotalPages\<close> is empty; and the lengths of
  the pages \<open>1 .. TotalPages\<close> add up to \<open>Total\<close>.  Each request runs the fan-out anew and
  meets iteration orders of its own, \<open>orders1 page\<close> in its count and \<open>orders2 page\<close> in
  its data; each of them is an order of the keys of the record it is met on
  (\<open>validOrders\<close>), and nothing else is assumed of them.
\<close>

theorem CrossTableMultiJoinPaginate_pages:
  fixes mapToStruct :: "ResultRecord \<Rightarrow> panic + 'a"
  assumes ps: "1 \<le> pageSize" "pageSize < 2 ^ 63"
    and skip: "\<forall>c \<in> set combos. \<forall>m. exec c = Inl m \<longrightarrow> missingTableOrColumnError m"
    and free: "orderFree fmtv (effectiveFields groups) (rowsOf exec combos)"
    and valid: "\<forall>page. validOrders (orders1 page) (rowsOf exec combos) \<and>
                       validOrders (orders2 page) (rowsOf exec combos)"
    and conv: "\<forall>r \<in> set (rowsOf exec combos). \<exists>x. mapToStruct r = Inr x"
    and small: "int (length (rowsOf exec combos)) < 2 ^ 62"
  shows "\<exists>n T.
     (\<forall>page. 1 \<le> page \<and> (page - 1) * pageSize < 2 ^ 63 \<longrightarrow>
        (\<exists>P. CrossTableMultiJoinPaginate fmtv (orders1 page) (orders2 page) mapToStruct exec
                combos groups [] page pageSize = Done P \<and>
              Total P = n \<and> TotalPages P = T \<and> (T < page \<longrightarrow> Data P = []))) \<and>
     (\<Sum>page = 1..T. int (length (pageData
        (CrossTableMultiJoinPaginate fmtv (orders1 page) (orders2 page) mapToStruct exec
           combos groups [] page pageSize)))) = n"
proof -
  let ?D = "deduplicateResults fmtv (orders1 1) (rowsOf exec combos) (effectiveFields groups)"
  let ?xs = "map (\<lambda>r. projr (mapToStruct r)) ?D"
  let ?n = "int (length ?D)"
  let ?T = "(?n + pageSize - 1) div pageSize"
  let ?call = "\<lambda>page. CrossTableMultiJoinPaginate fmtv (orders1 page) (orders2 page) mapToStruct
      exec combos groups [] page pageSize"
  have call: "?call page = Done \<lparr> Page = page, PageSize = pageSize, Total = ?n, TotalPages = ?T,
        Data = take (nat pageSize) (drop (nat ((page - 1) * pageSize)) ?xs) \<rparr>"
    if "1 \<le> page" "(page - 1) * pageSize < 2 ^ 63" for page
  proof -
    have v: "validOrders (orders1 1) (rowsOf exec combos)"
      "validOrders (orders1 page) (rowsOf exec combos)"
      "validOrders (orders2 page) (rowsOf exec combos)"
      using valid by simp_all
    show ?thesis
      by (rule CrossTableMultiJoinPaginate_page [OF ps skip free v conv small that])
  qed
  have n0: "0 \<le> ?n" by simp
  have cover: "?n \<le> ?T * pageSize" and T0: "0 \<le> ?T"
    using pages_cover [OF n0 ps(1)] by auto
  have nsmall: "?n < 2 ^ 62"
    using small deduplicateResults_length [of fmtv "orders1 1" "rowsOf exec combos"
        "effectiveFields groups"] by simp
  have beyond: "take (nat pageSize) (drop (nat ((page - 1) * pageSize)) ?xs) = []"
    if "?T < page" for page
  proof -
    have "?T \<le> page - 1" using that by simp
    then have "?T * pageSize \<le> (page - 1) * pageSize"
      using ps by (intro mult_right_mono) auto
    then have "?n \<le> (page - 1) * pageSize" using cover by linarith
    then have "length ?xs \<le> nat ((page - 1) * pageSize)" by simp
    then show ?thesis by simp
  qed
  have part1: "\<forall>page. 1 \<le> page \<and> (page - 1) * pageSize < 2 ^ 63 \<longrightarrow>
        (\<exists>P. ?call page = Done P \<and> Total P = ?n \<and> TotalPages P = ?T \<and>
              (?T < page \<longrightarrow> Data P = []))"
    using call beyond by simp
  have inrange: "(page - 1) * pageSize < 2 ^ 63" if "1 \<le> page" "page \<le> ?T" for page
  proof -
    have "?T * pageSize + (?n + pageSize - 1) mod pageSize = ?n + pageSize - 1"
      by (rule div_mult_mod_eq)
    moreover have "0 \<le> (?n + pageSize - 1) mod pageSize" using ps by simp
    ultimately have "?T * pageSize \<le> ?n + pageSize - 1" by linarith
    moreover have "(page - 1) * pageSize \<le> (?T - 1) * pageSize"
      using that ps by (intro mult_right_mono) auto
    moreover have "(?T - 1) * pageSize = ?T * pageSize - pageSize" by (simp add: algebra_simps)
    ultimately have "(page - 1) * pageSize < ?n" by linarith
    moreover have "(2::int) ^ 62 < 2 ^ 63" by simp
    ultimately show ?thesis using nsmall by linarith
  qed
  have data: "int (length (pageData (?call page)))
      = int (length (take (nat pageSize) (drop (nat (page - 1) * nat pageSize) ?xs)))"
    if "1 \<le> page" "page \<le> ?T" for page
  proof -
    have "nat ((page - 1) * pageSize) = nat (page - 1) * nat pageSize"
      using that by (simp add: nat_mult_distrib)
    then show ?thesis using call [OF that(1) inrange [OF that]] by (simp add: pageData_def)
  qed
  have "(\<Sum>page = 1..?T. int (length (pageData (?call page))))
      = (\<Sum>page = 1..?T. int (length (take (nat pageSize)
            (drop (nat (page - 1) * nat pageSize) ?xs))))"
    by (intro sum.cong refl data) auto
  also have "\<dots> = (\<Sum>k < nat ?T. int (length (take (nat pageSize)
            (drop (k * nat pageSize) ?xs))))"
  proof -
    define f where "f = (\<lambda>page. int (length (take (nat pageSize)
            (drop (nat (page - 1) * nat pageSize) ?xs))))"
    have "int (nat ?T) = ?T" using T0 by simp
    then have "(\<Sum>page = 1..?T. f page) = (\<Sum>k < nat ?T. f (int k + 1))"
      using sum_int_interval [of f "nat ?T"] by (simp only:)
    then show ?thesis by (simp add: f_def)
  qed
  also have "\<dots> = int (\<Sum>k < nat ?T. length (take (nat pageSize)
            (drop (k * nat pageSize) ?xs)))"
    by simp
  also have "\<dots> = int (min (length ?xs) (nat ?T * nat pageSize))"
    by (simp only: sum_page_lengths)
  also have "\<dots> = ?n"
  proof -
    have "nat ?n \<le> nat (?T * pageSize)" using cover by simp
    then have "length ?xs \<le> nat ?T * nat pageSize"
      using T0 by (simp add: nat_mult_distrib)
    then show ?thesis by simp
  qed
  finally have part2: "(\<Sum>page = 1..?T. int (length (pageData (?call page)))) = ?n" .
  show ?thesis using part1 part2 by blast
qed


lemma msg_orders_1: "missingTableOrColumnError ''Table 'db.orders_1' doesn't exist''"
  by code_simp

text \<open>The instance: two table combinations, the second of which does not exist; four
  rows, of which the third repeats the first and the fourth has the single column \<open>name\<close>
  and so matches no default group; two rows to a page.\<close>

theorem CrossTableMultiJoinPaginate_pages_witness:
  "missingTableOrColumnError ''Table 'db.orders_1' doesn't exist'' \<and>
   orderFree (\<lambda>v. case v of VString s \<Rightarrow> s | _ \<Rightarrow> []) (effectiveFields [])
     [[''id'' \<mapsto> VString ''1''], [''id'' \<mapsto> VString ''2''],
      [''id'' \<mapsto> VString ''1''], [''name'' \<mapsto> VString ''a'']] \<and>
   validOrders (\<lambda>i. if i = 3 then [''name''] else [''id''])
     [[''id'' \<mapsto> VString ''1''], [''id'' \<mapsto> VString ''2''],
      [''id'' \<mapsto> VString ''1''], [''name'' \<mapsto> VString ''a'']] \<and>
   (\<exists>n T.
     (\<forall>page. 1 \<le> page \<and> (page - 1) * 2 < 2 ^ 63 \<longrightarrow>
        (\<exists>P. CrossTableMultiJoinPaginate (\<lambda>v. case v of VString s \<Rightarrow> s | _ \<Rightarrow> [])
                (\<lambda>i. if i = 3 then [''name''] else [''id'']) (\<lambda>i. if i = 3 then [''name''] else [''id'']) Inr
                (\<lambda>c. if c = [''users_0'', ''orders_0'']
                   then Inr [[''id'' \<mapsto> VString ''1''], [''id'' \<mapsto> VString ''2''],
                             [''id'' \<mapsto> VString ''1''], [''name'' \<mapsto> VString ''a'']]
                   else Inl ''Table 'db.orders_1' doesn't exist'')
                [[''users_0'', ''orders_0''], [''users_0'', ''orders_1'']] [] [] page 2
              = Done P \<and>
              Total P = n \<and> TotalPages P = T \<and> (T < page \<longrightarrow> Data P = []))) \<and>
     (\<Sum>page = 1..T. int (length (pageData
        (CrossTableMultiJoinPaginate (\<lambda>v. case v of VString s \<Rightarrow> s | _ \<Rightarrow> [])
           (\<lambda>i. if i = 3 then [''name''] else [''id'']) (\<lambda>i. if i = 3 then [''name''] else [''id'']) Inr
           (\<lambda>c. if c = [''users_0'', ''orders_0'']
                   then Inr [[''id'' \<mapsto> VString ''1''], [''id'' \<mapsto> VString ''2''],
                             [''id'' \<mapsto> VString ''1''], [''name'' \<mapsto> VString ''a'']]
                   else Inl ''Table 'db.orders_1' doesn't exist'')
           [[''users_0'', ''orders_0''], [''users_0'', ''orders_1'']] [] [] page 2)))) = n)"
proof -
  let ?F = "\<lambda>v. case v of VString s \<Rightarrow> s | _ \<Rightarrow> []"
  let ?rows = "[[''id'' \<mapsto> VString ''1''], [''id'' \<mapsto> VString ''2''],
      [''id'' \<mapsto> VString ''1''], [''name'' \<mapsto> VString ''a'']]"
  let ?exec = "\<lambda>c. if c = [''users_0'', ''orders_0'']
      then Inr ?rows else Inl ''Table 'db.orders_1' doesn't exist''"
  let ?combos = "[[''users_0'', ''orders_0''], [''users_0'', ''orders_1'']]"
  let ?ord = "\<lambda>i :: nat. if i = 3 then [''name''] else [''id'']"
  have h1: "(1 :: int) \<le> 2" by simp
  have h2: "(2 :: int) < 2 ^ 63" by simp
  have h3: "\<forall>c \<in> set ?combos. \<forall>m. ?exec c = Inl m \<longrightarrow> missingTableOrColumnError m"
    using msg_orders_1 by simp
  have rows: "rowsOf ?exec ?combos = ?rows" by (simp add: rowsOf_def)
  have h4: "orderFree ?F (effectiveFields []) (rowsOf ?exec ?combos)"
    unfolding rows
    by (rule orderFree_if_groups_match_or_one_usable)
       (auto simp: effectiveFields_def GetDefaultDeduplicateFields_def usableGroup_def usable_def
          split: if_splits)
  have v: "validOrders ?ord ?rows"
    by (auto simp: validOrders_def validOrder_def nth_Cons split: nat.splits)
  have h5: "\<forall>page :: int. validOrders ((\<lambda>p. ?ord) page) (rowsOf ?exec ?combos) \<and>
                       validOrders ((\<lambda>p. ?ord) page) (rowsOf ?exec ?combos)"
    unfolding rows using v by simp
  have h6: "\<forall>r \<in> set (rowsOf ?exec ?combos). \<exists>x. (Inr :: ResultRecord \<Rightarrow> panic + ResultRecord) r = Inr x"
    by simp
  have h7: "int (length (rowsOf ?exec ?combos)) < 2 ^ 62"
    unfolding rows by simp
  show ?thesis
    using msg_orders_1 h4 [unfolded rows] v
      CrossTableMultiJoinPaginate_pages [OF h1 h2 h3 h4 h5 h6 h7]
    by blast
qed

text \<open>
  Claim C5 as stated fails: the converted rows are appended to the destination, so with
  a destination that already holds an element and a store without rows, \<open>Total\<close> and
  \<open>TotalPages\<close> are 0 and page 1, which is beyond \<open>TotalPages\<close>, is not empty.
\<close>

theorem CrossTableMultiJoinPaginate_appends_to_destination:
  "CrossTableMultiJoinPaginate (\<lambda>v. case v of VString s \<Rightarrow> s | _ \<Rightarrow> [])
     (\<lambda>i. []) (\<lambda>i. []) Inr (\<lambda>c. Inr []) [[''users_0'']] []
     [[''id'' \<mapsto> VString ''1'']] 1 10
   = Done \<lparr> Page = 1, PageSize = 10, Total = 0, TotalPages = 0,
            Data = [[''id'' \<mapsto> VString ''1'']] \<rparr>"
  by (simp add: CrossTableMultiJoinPaginate_def CrossTableMultiJoinCount_def
      CrossTableMultiJoin_def deduplicateResults_def convertResults_def paginateSlice_def
      wrap64_def Let_def)

text \<open>The second page of the three rows that remain, two to a page.\<close>

lemma second_page_of_three_rows:
  "pageData (CrossTableMultiJoinPaginate (\<lambda>v. case v of VString s \<Rightarrow> s | _ \<Rightarrow> [])
                (\<lambda>i. if i = 3 then [''name''] else [''id'']) (\<lambda>i. if i = 3 then [''name''] else [''id'']) Inr
                (\<lambda>c. if c = [''users_0'', ''orders_0'']
                   then Inr [[''id'' \<mapsto> VString ''1''], [''id'' \<mapsto> VString ''2''],
                             [''id'' \<mapsto> VString ''1''], [''name'' \<mapsto> VString ''a'']]
                   else Inl ''Table 'db.orders_1' doesn't exist'')
                [[''users_0'', ''orders_0''], [''users_0'', ''orders_1'']] [] [] 2 2)
   = [[''name'' \<mapsto> VString ''a'']]"
  using msg_orders_1
  by (simp add: CrossTableMultiJoinPaginate_def CrossTableMultiJoinCount_def
      CrossTableMultiJoin_def deduplicateResults_def convertResults_def paginateSlice_def
      wrap64_def Let_def effectiveFields_def GetDefaultDeduplicateFields_def keyPart_def
      allFieldsKey_def List.map_filter_simps pageData_def)

end
